theory Spec2Isabelle
  imports Main "HOL-Library.Multiset"
begin

section \<open>Strings of the program\<close>

text \<open>
  The program is JavaScript. Its strings are modelled as \<^typ>\<open>string\<close>, that is as
  lists of code units below 256; the messages the source writes in Chinese are
  constructors of the datatypes \<open>error\<close> and \<open>notice\<close> below, not literals.
\<close>

fun startsWith :: "string \<Rightarrow> string \<Rightarrow> bool" where
  "startsWith s [] = True"
| "startsWith [] (p # ps) = False"
| "startsWith (c # cs) (p # ps) = (c = p \<and> startsWith cs ps)"

text \<open>\<open>String.prototype.includes\<close>: the pattern occurs at some position, compared
  code unit by code unit (so letter case matters).\<close>

fun includes_str :: "string \<Rightarrow> string \<Rightarrow> bool" where
  "includes_str [] p = startsWith [] p"
| "includes_str (c # cs) p = (startsWith (c # cs) p \<or> includes_str cs p)"

section \<open>Request bodies of the conversational provider\<close>

text \<open>The \<open>imageConfig\<close> argument: \<open>{ aspect_ratio?, image_size? }\<close>.\<close>

record image_config =
  image_size :: "string option"
  aspect_ratio :: "string option"

text \<open>The message content: a plain prompt for generation, the two-part array
  (text, \<open>image_url\<close> with a JPEG data-URL of the source image) for an edit.\<close>

datatype content =
  TextContent string
| EditContent string string

record chat_request =
  body_model :: string
  messages :: content
  modalities :: "string list"
  stream :: bool
  max_tokens :: nat
  image_config :: "image_config option"

text \<open>Lines 70-86 of \<open>generateImage\<close> and 436-463 of \<open>editImage\<close>: the body is built,
  then \<open>image_config\<close> is added when
  \<open>model.includes('gemini') || model.includes('nano-banana')\<close>, with the value
  \<open>imageConfig || { image_size: '1K' }\<close> (an object is always truthy).\<close>

definition default_image_config :: image_config where
  "default_image_config = \<lparr>image_size = Some ''1K'', aspect_ratio = None\<rparr>"

definition with_image_config :: "string \<Rightarrow> image_config option \<Rightarrow> chat_request \<Rightarrow> chat_request" where
  "with_image_config mdl imageConfig requestBody =
     (if includes_str mdl ''gemini'' \<or> includes_str mdl ''nano-banana''
      then requestBody\<lparr>image_config :=
             Some (case imageConfig of None \<Rightarrow> default_image_config | Some c \<Rightarrow> c)\<rparr>
      else requestBody)"

definition generateImage_requestBody :: "string \<Rightarrow> string \<Rightarrow> image_config option \<Rightarrow> chat_request" where
  "generateImage_requestBody prompt mdl imageConfig =
     with_image_config mdl imageConfig
       \<lparr>body_model = mdl, messages = TextContent prompt, modalities = [''image'', ''text''],
        stream = False, max_tokens = 4000, image_config = None\<rparr>"

definition editImage_requestBody :: "string \<Rightarrow> string \<Rightarrow> string \<Rightarrow> image_config option \<Rightarrow> chat_request" where
  "editImage_requestBody editPrompt base64Image mdl imageConfig =
     with_image_config mdl imageConfig
       \<lparr>body_model = mdl,
        messages = EditContent editPrompt (''data:image/jpeg;base64,'' @ base64Image),
        modalities = [''image'', ''text''],
        stream = False, max_tokens = 4000, image_config = None\<rparr>"

text \<open>The specification's wording, for comparison: a case-insensitive substring match
  against the family tokens. ASCII letters are folded to lower case.\<close>

definition to_lower :: "char \<Rightarrow> char" where
  "to_lower c =
     (case map_of (zip ''ABCDEFGHIJKLMNOPQRSTUVWXYZ'' ''abcdefghijklmnopqrstuvwxyz'') c of
        None \<Rightarrow> c | Some d \<Rightarrow> d)"

definition spec_family_match :: "string \<Rightarrow> bool" where
  "spec_family_match mdl =
     (includes_str (map to_lower mdl) ''gemini'' \<or> includes_str (map to_lower mdl) ''nano-banana'')"

section \<open>Values of the JavaScript runtime\<close>

text \<open>
  What \<open>JSON.parse\<close> returns, with \<open>undefined\<close> added for the result of reading a
  property that is not there. A number is kept as the text that \<open>String(n)\<close> gives for it
  (\<open>0\<close> and \<open>-0\<close> are both \<open>''0''\<close>); the program only tests numbers for
  truthiness and concatenates them to strings. An object is the list of its own
  properties, each key once.
\<close>

datatype jsval =
  JUndefined
| JNull
| JBool bool
| JNum string
| JStr string
| JArr "jsval list"
| JObj "(string \<times> jsval) list"

fun truthy :: "jsval \<Rightarrow> bool" where
  "truthy JUndefined = False"
| "truthy JNull = False"
| "truthy (JBool b) = b"
| "truthy (JNum n) = (n \<noteq> ''0'')"
| "truthy (JStr s) = (s \<noteq> [])"
| "truthy (JArr xs) = True"
| "truthy (JObj kvs) = True"

text \<open>
  \<open>v.k\<close> for the keys the program reads (\<open>choices\<close>, \<open>message\<close>, \<open>delta\<close>,
  \<open>content\<close>, \<open>images\<close>, \<open>type\<close>, \<open>image_url\<close>, \<open>url\<close>, \<open>text\<close>,
  \<open>inline_data\<close>, \<open>data\<close>, \<open>mime_type\<close>): none of them is a property of a
  prototype, so only an object can hold one. Reading a property of \<open>null\<close> or
  \<open>undefined\<close> throws a TypeError: the result \<open>None\<close>.
\<close>

fun get_prop :: "jsval \<Rightarrow> string \<Rightarrow> jsval option" where
  "get_prop JUndefined k = None"
| "get_prop JNull k = None"
| "get_prop (JObj kvs) k = Some (case map_of kvs k of None \<Rightarrow> JUndefined | Some v \<Rightarrow> v)"
| "get_prop v k = Some JUndefined"

text \<open>\<open>v[0]\<close>: the first element of an array, the first code unit of a string, the
  property \<open>"0"\<close> of an object.\<close>

fun index0 :: "jsval \<Rightarrow> jsval option" where
  "index0 JUndefined = None"
| "index0 JNull = None"
| "index0 (JArr []) = Some JUndefined"
| "index0 (JArr (x # xs)) = Some x"
| "index0 (JStr []) = Some JUndefined"
| "index0 (JStr (c # cs)) = Some (JStr [c])"
| "index0 (JObj kvs) = Some (case map_of kvs ''0'' of None \<Rightarrow> JUndefined | Some v \<Rightarrow> v)"
| "index0 v = Some JUndefined"

text \<open>A property read where the source has already tested the receiver to be truthy.\<close>

definition getp :: "jsval \<Rightarrow> string \<Rightarrow> jsval" where
  "getp v k = (case get_prop v k of None \<Rightarrow> JUndefined | Some x \<Rightarrow> x)"

text \<open>
  The conversion to a string that \<open>+=\<close> and a template literal apply. An array is
  joined with commas, \<open>null\<close> and \<open>undefined\<close> elements giving the empty string; a
  plain object gives \<open>[object Object]\<close>, unless it has an own property \<open>toString\<close>
  (from JSON never a function), in which case the conversion throws a TypeError:
  the result \<open>None\<close>.
\<close>

fun to_string :: "jsval \<Rightarrow> string option"
  and join_elems :: "jsval list \<Rightarrow> string option" where
  "to_string JUndefined = Some ''undefined''"
| "to_string JNull = Some ''null''"
| "to_string (JBool b) = Some (if b then ''true'' else ''false'')"
| "to_string (JNum n) = Some n"
| "to_string (JStr s) = Some s"
| "to_string (JArr xs) = join_elems xs"
| "to_string (JObj kvs) =
     (if ''toString'' \<in> set (map fst kvs) then None else Some ''[object Object]'')"
| "join_elems [] = Some []"
| "join_elems (x # xs) =
     (case (if x = JNull \<or> x = JUndefined then Some [] else to_string x) of
        None \<Rightarrow> None
      | Some s \<Rightarrow>
          (if xs = [] then Some s
           else (case join_elems xs of None \<Rightarrow> None | Some t \<Rightarrow> Some (s @ '','' @ t))))"

section \<open>String methods and the three regular expressions\<close>

text \<open>White space of \<open>\s\<close> and of \<open>trim\<close>, among the code units below 256: TAB, LF, VT,
  FF, CR, SP and NBSP.\<close>

definition is_space :: "char \<Rightarrow> bool" where
  "is_space c = (c \<in> set [CHR 0x09, CHR 0x0A, CHR 0x0B, CHR 0x0C, CHR 0x0D, CHR 0x20, CHR 0xA0])"

definition trim :: "string \<Rightarrow> string" where
  "trim s = rev (dropWhile is_space (rev (dropWhile is_space s)))"

text \<open>\<open>s.split('\n')\<close>.\<close>

fun split_lines :: "string \<Rightarrow> string list" where
  "split_lines [] = [[]]"
| "split_lines (c # cs) =
     (if c = CHR 0x0A then [] # split_lines cs
      else (case split_lines cs of [] \<Rightarrow> [[c]] | l # ls \<Rightarrow> (c # l) # ls))"

text \<open>\<open>s.replace(p, '')\<close> with a string pattern: the first occurrence is removed.\<close>

fun remove_first :: "string \<Rightarrow> string \<Rightarrow> string" where
  "remove_first [] p = []"
| "remove_first (c # cs) p =
     (if startsWith (c # cs) p then drop (length p) (c # cs) else c # remove_first cs p)"

text \<open>
  The common head of the two data-URL expressions, \<open>data:image\/[^;]+;base64,\<close>, matched
  at the start of \<open>s\<close>: the result is what follows the comma. \<open>[^;]+\<close> is followed by
  a semicolon, so it can only match the whole run of characters up to the first one.
\<close>

definition data_url_head :: "string \<Rightarrow> string option" where
  "data_url_head s =
     (if startsWith s ''data:image/'' then
        (let r = drop 11 s;
             mime = takeWhile (\<lambda>c. c \<noteq> CHR '';'') r;
             r' = dropWhile (\<lambda>c. c \<noteq> CHR '';'') r
         in if mime \<noteq> [] \<and> startsWith r' '';base64,'' then Some (drop 8 r') else None)
      else None)"

text \<open>\<open>/^data:image\/[^;]+;base64,(.+)$/\<close>, the expression applied to an entry of
  \<open>message.images\<close>: group 1. The dot matches no line terminator.\<close>

definition match_data_url_whole :: "string \<Rightarrow> string option" where
  "match_data_url_whole s =
     (case data_url_head s of
        None \<Rightarrow> None
      | Some p \<Rightarrow>
          if p \<noteq> [] \<and> list_all (\<lambda>c. c \<noteq> CHR 0x0A \<and> c \<noteq> CHR 0x0D) p then Some p else None)"

text \<open>\<open>/data:image\/[^;]+;base64,([A-Za-z0-9+/=]+)/\<close>, searched in the accumulated text:
  group 1 of the leftmost match.\<close>

definition is_base64_char :: "char \<Rightarrow> bool" where
  "is_base64_char c =
     (c \<in> set ''ABCDEFGHIJKLMNOPQRSTUVWXYZabcdefghijklmnopqrstuvwxyz0123456789+/='')"

definition data_url_at :: "string \<Rightarrow> string option" where
  "data_url_at s =
     (case data_url_head s of
        None \<Rightarrow> None
      | Some p \<Rightarrow> (let b = takeWhile is_base64_char p in if b \<noteq> [] then Some b else None))"

fun match_data_url :: "string \<Rightarrow> string option" where
  "match_data_url [] = None"
| "match_data_url (c # cs) =
     (case data_url_at (c # cs) of Some b \<Rightarrow> Some b | None \<Rightarrow> match_data_url cs)"

text \<open>
  \<open>/https?:\/\/[^\s\)]+\.(jpg|jpeg|png|gif|webp)/i\<close>, searched in the accumulated text:
  the whole text of the leftmost match. \<open>ext_match\<close> is \<open>\.(jpg|...)\<close> at the start
  of a string; \<open>backtrack\<close> gives back characters of the greedy \<open>[^\s\)]+\<close> one at a
  time, from the longest run down to one character, until the extension follows.
\<close>

definition is_url_char :: "char \<Rightarrow> bool" where
  "is_url_char c = (\<not> is_space c \<and> c \<noteq> CHR '')'')"

definition ext_match :: "string \<Rightarrow> string option" where
  "ext_match s =
     (case s of
        [] \<Rightarrow> None
      | c # r \<Rightarrow>
          if c \<noteq> CHR ''.'' then None
          else (case find (\<lambda>e. startsWith (map to_lower r) e)
                       [''jpg'', ''jpeg'', ''png'', ''gif'', ''webp''] of
                  None \<Rightarrow> None
                | Some e \<Rightarrow> Some (c # take (length e) r)))"

fun backtrack :: "nat \<Rightarrow> string \<Rightarrow> string option" where
  "backtrack 0 body = None"
| "backtrack (Suc k) body =
     (case ext_match (drop (Suc k) body) of
        Some e \<Rightarrow> Some (take (Suc k) body @ e)
      | None \<Rightarrow> backtrack k body)"

definition url_body :: "string \<Rightarrow> string option" where
  "url_body body = backtrack (length (takeWhile is_url_char body)) body"

definition url_at :: "string \<Rightarrow> string option" where
  "url_at s =
     (if startsWith (map to_lower s) ''https://''
      then map_option (\<lambda>m. take 8 s @ m) (url_body (drop 8 s))
      else if startsWith (map to_lower s) ''http://''
      then map_option (\<lambda>m. take 7 s @ m) (url_body (drop 7 s))
      else None)"

fun match_image_url :: "string \<Rightarrow> string option" where
  "match_image_url [] = None"
| "match_image_url (c # cs) =
     (case url_at (c # cs) of Some u \<Rightarrow> Some u | None \<Rightarrow> match_image_url cs)"

section \<open>Collaborators\<close>

text \<open>
  The messages of the errors the program throws or receives. The source's texts:
  \<open>ApiRequestFailed\<close> and \<open>ZhipuRequestFailed\<close> carry the status and the body of a
  response that is not 2xx; \<open>DownloadFailed\<close> the status of a failed image download;
  \<open>NoImageFound\<close> is the message of line 240, which says that neither an image URL nor
  base64 data was found in the response and that the prompt may need adjusting
  (\<open>NoImageFoundEdit\<close>: the same for an edit, line 551); \<open>ZhipuFormat\<close> is the
  message of line 309; \<open>MissingPrompt\<close> and \<open>MissingBatch\<close> are the messages of
  the batch functions; \<open>TypeError\<close> and \<open>SyntaxError\<close> are raised by the runtime;
  \<open>External\<close> is the message of an exception of a collaborator (network, file
  system, \<open>Buffer\<close>).
\<close>

datatype error =
  ApiRequestFailed nat string
| ZhipuRequestFailed nat string
| DownloadFailed nat
| NoImageFound
| NoImageFoundEdit
| ZhipuFormat
| MissingPrompt
| MissingBatch
| TypeError
| SyntaxError
| External string

text \<open>The \<open>message\<close> of a successful result: generated, or edited, and saved to a path.\<close>

datatype notice =
  GeneratedAndSaved string
| EditedAndSaved string

type_synonym bytes = "nat list"

text \<open>The body of the direct provider: \<open>{model, prompt, size, watermark_enabled: false}\<close>.\<close>

record glm_request =
  glm_model :: string
  glm_prompt :: string
  glm_size :: string
  watermark_enabled :: bool

text \<open>A call of \<open>fetch\<close>: a POST with a bearer token and a JSON body, or a GET of a URL
  (any value: the direct provider's \<open>url\<close> is passed on as it is).\<close>

datatype http_call =
  PostChat string string chat_request
| PostGlm string string glm_request
| Get jsval

record response =
  ok :: bool
  status :: nat
  body_text :: string
  buffer :: bytes

text \<open>
  The world outside the program: the network, \<open>JSON.parse\<close>, \<open>Buffer\<close>, the file
  system, the clock, \<open>path.join\<close>, and the constants of \<open>API_CONFIG\<close>. An operation
  that can throw returns its message as an error. \<open>Buffer_from\<close> is
  \<open>Buffer.from(v, 'base64')\<close>, \<open>toString_base64\<close> is \<open>buf.toString('base64')\<close>.
\<close>

record env =
  fetch :: "http_call \<Rightarrow> error + response"
  JSON_parse :: "string \<Rightarrow> jsval option"
  Buffer_from :: "jsval \<Rightarrow> error + bytes"
  toString_base64 :: "bytes \<Rightarrow> string"
  fs_access :: "string \<Rightarrow> bool"
  fs_mkdir :: "string \<Rightarrow> error option"
  fs_writeFile :: "string \<Rightarrow> bytes \<Rightarrow> error option"
  fs_readFile :: "string \<Rightarrow> error + bytes"
  toISOString :: string
  path_join :: "string \<Rightarrow> string \<Rightarrow> string"
  apiKey :: string
  chatApiUrl :: string
  modelGlmImage :: string
  zhipuApiKey :: string
  zhipuApiBase :: string
  outputDir :: string
  projectDir :: string

section \<open>Extracting an image from a response\<close>

text \<open>The three local variables of the resolution, as declared at lines 105-107.\<close>

record acc =
  imageUrl :: "string option"
  fullContent :: string
  imageBase64 :: jsval

definition acc0 :: acc where
  "acc0 = \<lparr>imageUrl = None, fullContent = [], imageBase64 = JNull\<rparr>"

text \<open>A block that ran to its end, or threw: the variables keep what was assigned
  before the exception.\<close>

datatype 'a outcome = Normal 'a | Thrown 'a

text \<open>
  The body of the loop over \<open>message.images\<close> (lines 120-127): an entry of type
  \<open>image_url\<close> with a truthy \<open>image_url.url\<close> is matched against the anchored
  data-URL expression, and a match is assigned to \<open>imageBase64\<close>. A \<open>null\<close> entry
  and a \<open>url\<close> that is no string (\<open>match\<close> is not a function) throw.
\<close>

definition images_step :: "jsval \<Rightarrow> acc \<Rightarrow> acc outcome" where
  "images_step img a =
     (case get_prop img ''type'' of
        None \<Rightarrow> Thrown a
      | Some t \<Rightarrow>
          if t = JStr ''image_url'' \<and> truthy (getp img ''image_url'')
             \<and> truthy (getp (getp img ''image_url'') ''url'')
          then (case getp (getp img ''image_url'') ''url'' of
                  JStr dataUrl \<Rightarrow>
                    (case match_data_url_whole dataUrl of
                       Some p \<Rightarrow> Normal (a\<lparr>imageBase64 := JStr p\<rparr>)
                     | None \<Rightarrow> Normal a)
                | _ \<Rightarrow> Thrown a)
          else Normal a)"

fun images_loop :: "jsval list \<Rightarrow> acc \<Rightarrow> acc outcome" where
  "images_loop [] a = Normal a"
| "images_loop (img # imgs) a =
     (case images_step img a of Thrown a' \<Rightarrow> Thrown a' | Normal a' \<Rightarrow> images_loop imgs a')"

text \<open>
  What the \<open>console.error\<close> after the assignment of an inline image evaluates: at line
  139 \<open>part.inline_data.mime_type\<close> and \<open>imageBase64.length\<close> in a template literal,
  at lines 174 and 191 \<open>imageBase64.length\<close> alone, in \<open>editImage\<close> nothing.
\<close>

datatype logging = NoLog | LogLength | LogMimeAndLength

definition length_throws :: "jsval \<Rightarrow> bool" where
  "length_throws d =
     (case d of
        JUndefined \<Rightarrow> True
      | JNull \<Rightarrow> True
      | JObj kvs \<Rightarrow> (case map_of kvs ''length'' of None \<Rightarrow> False | Some v \<Rightarrow> to_string v = None)
      | _ \<Rightarrow> False)"

definition log_throws :: "logging \<Rightarrow> jsval \<Rightarrow> jsval \<Rightarrow> bool" where
  "log_throws lg inline_data d =
     (case lg of
        NoLog \<Rightarrow> False
      | LogLength \<Rightarrow> length_throws d
      | LogMimeAndLength \<Rightarrow> to_string (getp inline_data ''mime_type'') = None \<or> length_throws d)"

text \<open>
  The body of the loop over the parts of a content array (lines 134-140, 170-175,
  187-192, 510-514): a \<open>text\<close> part is appended to \<open>fullContent\<close>
  (\<open>part.text || ''\<close>), an \<open>image\<close> part with a truthy \<open>inline_data\<close> assigns its
  \<open>data\<close> to \<open>imageBase64\<close>.
\<close>

definition part_step :: "logging \<Rightarrow> jsval \<Rightarrow> acc \<Rightarrow> acc outcome" where
  "part_step lg part a =
     (case get_prop part ''type'' of
        None \<Rightarrow> Thrown a
      | Some t \<Rightarrow>
          if t = JStr ''text'' then
            (case to_string (if truthy (getp part ''text'') then getp part ''text'' else JStr []) of
               None \<Rightarrow> Thrown a
             | Some s \<Rightarrow> Normal (a\<lparr>fullContent := fullContent a @ s\<rparr>))
          else if t = JStr ''image'' \<and> truthy (getp part ''inline_data'') then
            (let d = getp (getp part ''inline_data'') ''data'';
                 a' = a\<lparr>imageBase64 := d\<rparr>
             in if log_throws lg (getp part ''inline_data'') d then Thrown a' else Normal a')
          else Normal a)"

fun parts_loop :: "logging \<Rightarrow> jsval list \<Rightarrow> acc \<Rightarrow> acc outcome" where
  "parts_loop lg [] a = Normal a"
| "parts_loop lg (part # parts) a =
     (case part_step lg part a of
        Thrown a' \<Rightarrow> Thrown a'
      | Normal a' \<Rightarrow> parts_loop lg parts a')"

text \<open>The value of \<open>jsonData.choices && jsonData.choices[0] && jsonData.choices[0].message\<close>;
  \<open>None\<close> when \<open>jsonData\<close> is \<open>null\<close>.\<close>

definition first_choice :: "jsval \<Rightarrow> jsval option" where
  "first_choice data =
     (case get_prop data ''choices'' of
        None \<Rightarrow> None
      | Some c \<Rightarrow> if truthy c then index0 c else Some c)"

definition message_of :: "jsval \<Rightarrow> jsval option" where
  "message_of jsonData =
     (case first_choice jsonData of
        None \<Rightarrow> None
      | Some c0 \<Rightarrow> if truthy c0 then get_prop c0 ''message'' else Some c0)"

text \<open>The \<open>try\<close> block over a parsed response (lines 113-145 and 490-519).\<close>

definition json_phase :: "logging \<Rightarrow> jsval \<Rightarrow> acc \<Rightarrow> acc outcome" where
  "json_phase lg jsonData a =
     (case message_of jsonData of
        None \<Rightarrow> Thrown a
      | Some message \<Rightarrow>
          if \<not> truthy message then Normal a
          else
            (case (case getp message ''images'' of
                     JArr imgs \<Rightarrow> images_loop imgs a
                   | _ \<Rightarrow> Normal a) of
               Thrown a' \<Rightarrow> Thrown a'
             | Normal a1 \<Rightarrow>
                 (case getp message ''content'' of
                    JArr parts \<Rightarrow>
                      if \<not> truthy (imageBase64 a1) then parts_loop lg parts a1 else Normal a1
                  | JStr s \<Rightarrow> Normal (a1\<lparr>fullContent := s\<rparr>)
                  | _ \<Rightarrow> Normal a1)))"

text \<open>
  The event-stream fallback (lines 150-204). For a choice, the \<open>delta\<close> and then the
  \<open>message\<close> are inspected: a truthy \<open>content\<close> that is an array is looped over, one
  that is a string is appended. An exception inside a line is caught and the loop
  goes on with the next line.
\<close>

definition content_phase :: "jsval \<Rightarrow> string \<Rightarrow> acc \<Rightarrow> acc outcome" where
  "content_phase choice k a =
     (if truthy (getp choice k) \<and> truthy (getp (getp choice k) ''content'') then
        (case getp (getp choice k) ''content'' of
           JArr parts \<Rightarrow> parts_loop LogLength parts a
         | JStr s \<Rightarrow> Normal (a\<lparr>fullContent := fullContent a @ s\<rparr>)
         | _ \<Rightarrow> Normal a)
      else Normal a)"

definition stream_line :: "env \<Rightarrow> string \<Rightarrow> acc \<Rightarrow> acc" where
  "stream_line e line a =
     (if startsWith (trim line) ''data:'' then
        (let jsonStr = remove_first line ''data: '' in
         if trim jsonStr = ''[DONE]'' then a
         else
           (case JSON_parse e jsonStr of
              None \<Rightarrow> a
            | Some data \<Rightarrow>
                (case first_choice data of
                   None \<Rightarrow> a
                 | Some choice \<Rightarrow>
                     if \<not> truthy choice then a
                     else
                       (case content_phase choice ''delta'' a of
                          Thrown a' \<Rightarrow> a'
                        | Normal a1 \<Rightarrow>
                            (case content_phase choice ''message'' a1 of
                               Thrown a' \<Rightarrow> a'
                             | Normal a2 \<Rightarrow> a2)))))
      else a)"

definition stream_lines :: "string \<Rightarrow> string list" where
  "stream_lines responseText = filter (\<lambda>line. trim line \<noteq> []) (split_lines responseText)"

definition stream_phase :: "env \<Rightarrow> string \<Rightarrow> acc \<Rightarrow> acc" where
  "stream_phase e responseText a = fold (stream_line e) (stream_lines responseText) a"

text \<open>Lines 110-205 of \<open>generateImage\<close>: the \<open>catch\<close> of the \<open>try\<close> block receives a
  failure of \<open>JSON.parse\<close> and any exception thrown inside the block alike.\<close>

definition generateImage_extract :: "env \<Rightarrow> string \<Rightarrow> acc" where
  "generateImage_extract e responseText =
     (case JSON_parse e responseText of
        None \<Rightarrow> stream_phase e responseText acc0
      | Some jsonData \<Rightarrow>
          (case json_phase LogMimeAndLength jsonData acc0 of
             Normal a \<Rightarrow> a
           | Thrown a \<Rightarrow> stream_phase e responseText a))"

text \<open>Lines 487-522 of \<open>editImage\<close>: the \<open>catch\<close> only logs.\<close>

definition editImage_extract :: "env \<Rightarrow> string \<Rightarrow> acc" where
  "editImage_extract e responseText =
     (case JSON_parse e responseText of
        None \<Rightarrow> acc0
      | Some jsonData \<Rightarrow>
          (case json_phase NoLog jsonData acc0 of Normal a \<Rightarrow> a | Thrown a \<Rightarrow> a))"

text \<open>
  The scan of the accumulated text (lines 211-223; in \<open>editImage\<close>, lines 525-535, it
  also requires \<open>fullContent\<close> to be non-empty): two independent \<open>if\<close>s, the first
  assigns \<open>imageUrl\<close>, the second \<open>imageBase64\<close>.
\<close>

definition scan_text :: "acc \<Rightarrow> acc" where
  "scan_text a =
     (let a1 = (case match_image_url (fullContent a) of
                  Some u \<Rightarrow> a\<lparr>imageUrl := Some u\<rparr>
                | None \<Rightarrow> a)
      in (case match_data_url (fullContent a) of
            Some b \<Rightarrow> a1\<lparr>imageBase64 := JStr b\<rparr>
          | None \<Rightarrow> a1))"

definition generateImage_scan :: "acc \<Rightarrow> acc" where
  "generateImage_scan a =
     (if imageUrl a = None \<and> \<not> truthy (imageBase64 a) then scan_text a else a)"

definition editImage_scan :: "acc \<Rightarrow> acc" where
  "editImage_scan a =
     (if imageUrl a = None \<and> \<not> truthy (imageBase64 a) \<and> fullContent a \<noteq> []
      then scan_text a else a)"

text \<open>
  Lines 225-241 (and 537-552): \<open>imageBase64\<close> is decoded when truthy, otherwise
  \<open>imageUrl\<close> is downloaded, otherwise the error \<open>none\<close> is thrown. The result
  comes with the calls of \<open>fetch\<close> made.
\<close>

definition download :: "env \<Rightarrow> jsval \<Rightarrow> error + bytes" where
  "download e u =
     (case fetch e (Get u) of
        Inl err \<Rightarrow> Inl err
      | Inr imageResponse \<Rightarrow>
          if \<not> ok imageResponse then Inl (DownloadFailed (status imageResponse))
          else Inr (buffer imageResponse))"

definition materialize :: "env \<Rightarrow> error \<Rightarrow> acc \<Rightarrow> http_call list \<times> (error + bytes)" where
  "materialize e none a =
     (if truthy (imageBase64 a) then ([], Buffer_from e (imageBase64 a))
      else
        (case imageUrl a of
           Some u \<Rightarrow> if u \<noteq> [] then ([Get (JStr u)], download e (JStr u)) else ([], Inl none)
         | None \<Rightarrow> ([], Inl none)))"

text \<open>The resolution of a response text, as \<open>generateImage\<close> and as \<open>editImage\<close> do it.\<close>

definition generateImage_resolve :: "env \<Rightarrow> string \<Rightarrow> http_call list \<times> (error + bytes)" where
  "generateImage_resolve e responseText =
     materialize e NoImageFound (generateImage_scan (generateImage_extract e responseText))"

definition editImage_resolve :: "env \<Rightarrow> string \<Rightarrow> http_call list \<times> (error + bytes)" where
  "editImage_resolve e responseText =
     materialize e NoImageFoundEdit (editImage_scan (editImage_extract e responseText))"

section \<open>The single-job functions\<close>

text \<open>
  The object a job function returns. \<open>success\<close> and \<open>prompt\<close> are properties of every
  result; \<open>message\<close>, \<open>filePath\<close>, \<open>error\<close> and \<open>model\<close> are \<open>None\<close> when the
  object has no such property. The value of \<open>prompt\<close> is \<open>None\<close> when it is
  \<open>undefined\<close>.
\<close>

record job_result =
  success :: bool
  message :: "notice option"
  filePath :: "string option"
  error :: "error option"
  prompt :: "string option"
  model :: "string option"

text \<open>The names of the properties of a result object, in the order of the source.\<close>

definition result_keys :: "job_result \<Rightarrow> string list" where
  "result_keys r =
     [''success'']
     @ (if message r \<noteq> None then [''message''] else [])
     @ (if filePath r \<noteq> None then [''filePath''] else [])
     @ (if error r \<noteq> None then [''error''] else [])
     @ [''prompt'']
     @ (if model r \<noteq> None then [''model''] else [])"

text \<open>The default file name: \<open>prompt.substring(0, 30)\<close> with every character that is
  no ASCII letter or digit replaced by an underscore, and the ISO time with colons and
  dots replaced by hyphens.\<close>

definition is_alnum :: "char \<Rightarrow> bool" where
  "is_alnum c =
     (c \<in> set ''abcdefghijklmnopqrstuvwxyzABCDEFGHIJKLMNOPQRSTUVWXYZ0123456789'')"

definition safePrompt :: "string \<Rightarrow> string" where
  "safePrompt p = map (\<lambda>c. if is_alnum c then c else CHR ''_'') (take 30 p)"

definition timestamp :: "env \<Rightarrow> string" where
  "timestamp e =
     map (\<lambda>c. if c = CHR '':'' \<or> c = CHR ''.'' then CHR ''-'' else c) (toISOString e)"

text \<open>\<open>try { await fs.access(dir) } catch { await fs.mkdir(dir, {recursive: true}) }\<close>.\<close>

definition ensure_dir :: "env \<Rightarrow> string \<Rightarrow> error option" where
  "ensure_dir e dir = (if fs_access e dir then None else fs_mkdir e dir)"

definition targetDir :: "env \<Rightarrow> string" where
  "targetDir e = (if projectDir e \<noteq> [] then projectDir e else outputDir e)"

text \<open>The path written to: the caller's when truthy, otherwise a generated one in
  \<open>dir\<close>, which is created when missing.\<close>

definition save_path :: "env \<Rightarrow> string option \<Rightarrow> string \<Rightarrow> string \<Rightarrow> error + string" where
  "save_path e saveToFilePath dir name =
     (if saveToFilePath \<noteq> None \<and> saveToFilePath \<noteq> Some [] then Inr (the saveToFilePath)
      else (case ensure_dir e dir of
              Some err \<Rightarrow> Inl err
            | None \<Rightarrow> Inr (path_join e dir name)))"

text \<open>Lines 243-268 (and 322-345, 554-572): the path is fixed, the bytes are written,
  and \<open>done\<close> builds the result for the path.\<close>

definition persist :: "env \<Rightarrow> string option \<Rightarrow> string \<Rightarrow> string \<Rightarrow> bytes \<Rightarrow> error + string" where
  "persist e saveToFilePath dir name imageBuffer =
     (case save_path e saveToFilePath dir name of
        Inl err \<Rightarrow> Inl err
      | Inr p \<Rightarrow> (case fs_writeFile e p imageBuffer of Some err \<Rightarrow> Inl err | None \<Rightarrow> Inr p))"

definition generateImage_success :: "string \<Rightarrow> string \<Rightarrow> job_result" where
  "generateImage_success p pr =
     \<lparr>success = True, message = Some (GeneratedAndSaved p), filePath = Some p, error = None,
      prompt = Some pr, model = None\<rparr>"

definition generateImage_failure :: "error \<Rightarrow> string \<Rightarrow> job_result" where
  "generateImage_failure err pr =
     \<lparr>success = False, message = None, filePath = None, error = Some err,
      prompt = Some pr, model = None\<rparr>"

text \<open>
  \<open>generateImage\<close> (lines 65-278). Every exception inside is caught at line 270 and
  becomes the failing result; the function itself never throws. The result comes with
  the calls of \<open>fetch\<close> it made.
\<close>

definition generateImage_name :: "env \<Rightarrow> string \<Rightarrow> acc \<Rightarrow> string \<Rightarrow> string" where
  "generateImage_name e pr a responseText =
     ''generated_'' @ safePrompt pr @ ''_'' @ timestamp e @ ''.''
     @ (if truthy (imageBase64 a) \<and> includes_str responseText ''image/jpeg''
        then ''jpg'' else ''png'')"

definition generateImage ::
  "env \<Rightarrow> string \<Rightarrow> string option \<Rightarrow> string \<Rightarrow> image_config option
     \<Rightarrow> http_call list \<times> job_result" where
  "generateImage e pr saveToFilePath mdl imageConfig =
     (let post = PostChat (chatApiUrl e) (apiKey e) (generateImage_requestBody pr mdl imageConfig)
      in case fetch e post of
           Inl err \<Rightarrow> ([post], generateImage_failure err pr)
         | Inr resp \<Rightarrow>
             if \<not> ok resp
             then ([post], generateImage_failure (ApiRequestFailed (status resp) (body_text resp)) pr)
             else
               (let a = generateImage_scan (generateImage_extract e (body_text resp));
                    m = materialize e NoImageFound a
                in case snd m of
                     Inl err \<Rightarrow> (post # fst m, generateImage_failure err pr)
                   | Inr imageBuffer \<Rightarrow>
                       (case persist e saveToFilePath (targetDir e)
                               (generateImage_name e pr a (body_text resp)) imageBuffer of
                          Inl err \<Rightarrow> (post # fst m, generateImage_failure err pr)
                        | Inr p \<Rightarrow> (post # fst m, generateImage_success p pr))))"

text \<open>
  \<open>generateImageGlm\<close> (lines 281-356). The response is parsed with
  \<open>response.json()\<close> and only \<open>data.data[0].url\<close> is read; the URL is logged in a
  template literal and then downloaded.
\<close>

definition glm_success :: "string \<Rightarrow> string \<Rightarrow> job_result" where
  "glm_success p pr =
     \<lparr>success = True, message = Some (GeneratedAndSaved p), filePath = Some p, error = None,
      prompt = Some pr, model = Some ''glm-image''\<rparr>"

definition glm_failure :: "error \<Rightarrow> string \<Rightarrow> job_result" where
  "glm_failure err pr =
     \<lparr>success = False, message = None, filePath = None, error = Some err,
      prompt = Some pr, model = Some ''glm-image''\<rparr>"

definition glm_url :: "jsval \<Rightarrow> error + jsval" where
  "glm_url data =
     (case get_prop data ''data'' of
        None \<Rightarrow> Inl TypeError
      | Some d \<Rightarrow>
          if \<not> truthy d then Inl ZhipuFormat
          else (case index0 d of
                  None \<Rightarrow> Inl TypeError
                | Some d0 \<Rightarrow>
                    if \<not> truthy d0 \<or> \<not> truthy (getp d0 ''url'') then Inl ZhipuFormat
                    else if to_string (getp d0 ''url'') = None then Inl TypeError
                    else Inr (getp d0 ''url'')))"

definition generateImageGlm ::
  "env \<Rightarrow> string \<Rightarrow> string option \<Rightarrow> string \<Rightarrow> http_call list \<times> job_result" where
  "generateImageGlm e pr saveToFilePath sz =
     (let post = PostGlm (zhipuApiBase e @ ''/images/generations'') (zhipuApiKey e)
                   \<lparr>glm_model = modelGlmImage e, glm_prompt = pr, glm_size = sz,
                    watermark_enabled = False\<rparr>
      in case fetch e post of
           Inl err \<Rightarrow> ([post], glm_failure err pr)
         | Inr resp \<Rightarrow>
             if \<not> ok resp
             then ([post], glm_failure (ZhipuRequestFailed (status resp) (body_text resp)) pr)
             else
               (case JSON_parse e (body_text resp) of
                  None \<Rightarrow> ([post], glm_failure SyntaxError pr)
                | Some data \<Rightarrow>
                    (case glm_url data of
                       Inl err \<Rightarrow> ([post], glm_failure err pr)
                     | Inr u \<Rightarrow>
                         (case download e u of
                            Inl err \<Rightarrow> ([post, Get u], glm_failure err pr)
                          | Inr imageBuffer \<Rightarrow>
                              (case persist e saveToFilePath (targetDir e)
                                      (''glm_'' @ safePrompt pr @ ''_'' @ timestamp e @ ''.png'')
                                      imageBuffer of
                                 Inl err \<Rightarrow> ([post, Get u], glm_failure err pr)
                               | Inr p \<Rightarrow> ([post, Get u], glm_success p pr))))))"

text \<open>\<open>editImage\<close> (lines 427-583): the source image is read and encoded, the rest is as
  in \<open>generateImage\<close> without the event-stream fallback.\<close>

record edit_result =
  edit_success :: bool
  edit_message :: "notice option"
  edit_filePath :: "string option"
  edit_error :: "error option"
  originalPath :: string
  editPrompt :: string

definition editImage_failure :: "error \<Rightarrow> string \<Rightarrow> string \<Rightarrow> edit_result" where
  "editImage_failure err imagePath pr =
     \<lparr>edit_success = False, edit_message = None, edit_filePath = None, edit_error = Some err,
      originalPath = imagePath, editPrompt = pr\<rparr>"

definition editImage ::
  "env \<Rightarrow> string \<Rightarrow> string \<Rightarrow> string option \<Rightarrow> string \<Rightarrow> image_config option
     \<Rightarrow> http_call list \<times> edit_result" where
  "editImage e imagePath pr saveToFilePath mdl imageConfig =
     (case fs_readFile e imagePath of
        Inl err \<Rightarrow> ([], editImage_failure err imagePath pr)
      | Inr imageBuffer \<Rightarrow>
          (let post = PostChat (chatApiUrl e) (apiKey e)
                        (editImage_requestBody pr (toString_base64 e imageBuffer) mdl imageConfig)
           in case fetch e post of
                Inl err \<Rightarrow> ([post], editImage_failure err imagePath pr)
              | Inr resp \<Rightarrow>
                  if \<not> ok resp
                  then ([post], editImage_failure
                                  (ApiRequestFailed (status resp) (body_text resp)) imagePath pr)
                  else
                    (let m = editImage_resolve e (body_text resp)
                     in case snd m of
                          Inl err \<Rightarrow> (post # fst m, editImage_failure err imagePath pr)
                        | Inr editedImageBuffer \<Rightarrow>
                            (case persist e saveToFilePath (outputDir e)
                                    (''edited_'' @ safePrompt pr @ ''_'' @ timestamp e @ ''.png'')
                                    editedImageBuffer of
                               Inl err \<Rightarrow> (post # fst m, editImage_failure err imagePath pr)
                             | Inr p \<Rightarrow>
                                 (post # fst m,
                                  \<lparr>edit_success = True, edit_message = Some (EditedAndSaved p),
                                   edit_filePath = Some p, edit_error = None,
                                   originalPath = imagePath, editPrompt = pr\<rparr>)))))"

section \<open>The batch functions\<close>

text \<open>
  An element of the requests array, \<open>{ prompt, saveToFilePath? }\<close>: a property that is
  missing is \<open>None\<close>. The worker destructures the element, so its two locals are a
  copy of these two values.
\<close>

record job =
  job_prompt :: "string option"
  job_saveToFilePath :: "string option"

definition has_prompt :: "job \<Rightarrow> bool" where
  "has_prompt j = (job_prompt j \<noteq> None \<and> job_prompt j \<noteq> Some [])"

text \<open>Lines 371 and 406: \<open>{ success: false, error: <missing prompt>, prompt }\<close>.\<close>

definition missing_prompt :: "job \<Rightarrow> job_result" where
  "missing_prompt j =
     \<lparr>success = False, message = None, filePath = None, error = Some MissingPrompt,
      prompt = job_prompt j, model = None\<rparr>"

text \<open>
  A worker is an \<open>async\<close> function: it runs without interruption until it awaits the
  job function, and is resumed when that call has completed. Between two awaits the
  loop \<open>while (queue.length)\<close> shifts jobs off the queue; a job without a prompt gets its
  failing result pushed at once and the loop continues; a job with a prompt is
  awaited; an empty queue ends the worker.
\<close>

datatype worker = Awaiting string "string option" | Finished

fun worker_loop :: "job list \<Rightarrow> job_result list \<Rightarrow> worker \<times> job list \<times> job_result list" where
  "worker_loop [] rs = (Finished, [], rs)"
| "worker_loop (j # q) rs =
     (if \<not> has_prompt j then worker_loop q (rs @ [missing_prompt j])
      else (Awaiting (the (job_prompt j)) (job_saveToFilePath j), q, rs))"

text \<open>The job function with the arguments of the batch fixed: from the prompt and the
  path to the calls made and the result.\<close>

type_synonym job_fn = "string \<Rightarrow> string option \<Rightarrow> http_call list \<times> job_result"

text \<open>
  The state of a batch call. Arrays of jobs are objects with an identity: \<open>heap\<close> is
  the list of all of them and an address is an index into it. \<open>queue\<close> is the address
  of the work queue, \<open>results\<close> the array returned at the end, \<open>calls\<close> the calls of
  \<open>fetch\<close> made so far.
\<close>

record batch_state =
  heap :: "job list list"
  queue :: nat
  results :: "job_result list"
  workers :: "worker list"
  calls :: "http_call list"

definition array_at :: "job list list \<Rightarrow> nat \<Rightarrow> job list option" where
  "array_at h a = (if a < length h then Some (h ! a) else None)"

definition queue_of :: "batch_state \<Rightarrow> job list" where
  "queue_of s = (case array_at (heap s) (queue s) of None \<Rightarrow> [] | Some q \<Rightarrow> q)"

text \<open>A worker runs up to its next await; \<open>queue.shift()\<close> and \<open>results.push\<close> mutate
  the two arrays in place.\<close>

definition run_worker :: "batch_state \<Rightarrow> worker \<times> batch_state" where
  "run_worker s =
     (case worker_loop (queue_of s) (results s) of
        (w, q, rs) \<Rightarrow> (w, s\<lparr>heap := (heap s)[queue s := q], results := rs\<rparr>))"

text \<open>\<open>Array.from({ length: n }, async () => ...)\<close> starts the workers one after the
  other, each running up to its first await.\<close>

fun spawn :: "nat \<Rightarrow> batch_state \<Rightarrow> batch_state" where
  "spawn 0 s = s"
| "spawn (Suc n) s =
     (case run_worker s of (w, s') \<Rightarrow> spawn n (s'\<lparr>workers := workers s' @ [w]\<rparr>))"

text \<open>
  The awaited call of worker \<open>i\<close> completes: its result is pushed and the worker runs
  up to its next await. Completing a worker that awaits nothing does nothing.
\<close>

definition complete :: "job_fn \<Rightarrow> nat \<Rightarrow> batch_state \<Rightarrow> batch_state" where
  "complete run i s =
     (if i < length (workers s) then
        (case workers s ! i of
           Finished \<Rightarrow> s
         | Awaiting p sp \<Rightarrow>
             (case run_worker (s\<lparr>results := results s @ [snd (run p sp)],
                                  calls := calls s @ fst (run p sp)\<rparr>) of
                (w, s') \<Rightarrow> s'\<lparr>workers := (workers s')[i := w]\<rparr>))
      else s)"

fun first_awaiting :: "worker list \<Rightarrow> nat option" where
  "first_awaiting [] = None"
| "first_awaiting (Finished # ws) = map_option Suc (first_awaiting ws)"
| "first_awaiting (Awaiting p sp # ws) = Some 0"

text \<open>The number of jobs not yet completed: those queued and those awaited.\<close>

definition pending :: "batch_state \<Rightarrow> nat" where
  "pending s = length (queue_of s) + length (filter (\<lambda>w. w \<noteq> Finished) (workers s))"

text \<open>Termination of the batch: completing an awaited call leaves fewer jobs pending.\<close>

lemma worker_loop_length:
  "worker_loop q rs = (w, q', rs') \<Longrightarrow>
     (w = Finished \<longrightarrow> q' = []) \<and> (w \<noteq> Finished \<longrightarrow> length q' < length q)"
  by (induction q rs rule: worker_loop.induct) (auto split: if_splits)

lemma first_awaiting_Some:
  "first_awaiting ws = Some i \<Longrightarrow> i < length ws \<and> (\<exists>p sp. ws ! i = Awaiting p sp)"
  by (induction ws arbitrary: i rule: first_awaiting.induct) auto

lemma first_awaiting_None:
  "first_awaiting ws = None \<longleftrightarrow> (\<forall>w \<in> set ws. w = Finished)"
  by (induction ws rule: first_awaiting.induct) auto

lemma filter_update_Awaiting:
  "i < length ws \<Longrightarrow> ws ! i = Awaiting p sp \<Longrightarrow>
     length (filter (\<lambda>w. w \<noteq> Finished) (ws[i := w']))
       = length (filter (\<lambda>w. w \<noteq> Finished) ws) - (if w' = Finished then 1 else 0)
   \<and> 0 < length (filter (\<lambda>w. w \<noteq> Finished) ws)"
proof (induction ws arbitrary: i)
  case Nil
  then show ?case by simp
next
  case (Cons a ws)
  then show ?case by (cases i) (auto split: if_splits)
qed

lemma pending_complete:
  assumes "i < length (workers s)" "workers s ! i = Awaiting p sp"
  shows "pending (complete run i s) < pending s"
proof -
  let ?s1 = "s\<lparr>results := results s @ [snd (run p sp)], calls := calls s @ fst (run p sp)\<rparr>"
  obtain w q rs where wl: "worker_loop (queue_of ?s1) (results ?s1) = (w, q, rs)"
    by (metis prod_cases3)
  have q1: "queue_of ?s1 = queue_of s" by (simp add: queue_of_def)
  have len: "(w = Finished \<longrightarrow> q = []) \<and> (w \<noteq> Finished \<longrightarrow> length q < length (queue_of s))"
    using worker_loop_length[OF wl] by (simp add: q1)
  have c: "complete run i s
     = (?s1\<lparr>heap := (heap s)[queue s := q], results := rs\<rparr>)\<lparr>workers := (workers s)[i := w]\<rparr>"
    using assms wl by (simp add: complete_def run_worker_def)
  have qo: "queue_of (complete run i s) = (if queue s < length (heap s) then q else [])"
    unfolding c by (simp add: queue_of_def array_at_def)
  define n where "n = length (filter (\<lambda>w. w \<noteq> Finished) (workers s))"
  define n' where "n' = length (filter (\<lambda>w. w \<noteq> Finished) ((workers s)[i := w]))"
  have n: "n' = n - (if w = Finished then 1 else 0)" "0 < n"
    using filter_update_Awaiting[OF assms, of w] by (simp_all add: n_def n'_def)
  have p': "pending (complete run i s) = length (queue_of (complete run i s)) + n'"
    unfolding pending_def n'_def by (simp add: c)
  have p: "pending s = length (queue_of s) + n"
    by (simp add: pending_def n_def)
  have "length (queue_of (complete run i s)) + n' < length (queue_of s) + n"
  proof (cases "w = Finished")
    case True
    with len qo n show ?thesis by simp
  next
    case False
    with len qo n show ?thesis by (auto split: if_splits)
  qed
  then show ?thesis by (simp add: p p')
qed

text \<open>
  \<open>await Promise.all(workers)\<close>: the calls still awaited complete, here in the order
  of the workers, until every worker has finished.
\<close>

function join :: "job_fn \<Rightarrow> batch_state \<Rightarrow> batch_state" where
  "join run s =
     (case first_awaiting (workers s) of
        None \<Rightarrow> s
      | Some i \<Rightarrow> join run (complete run i s))"
  by pat_completeness auto
termination
  by (relation "measure (\<lambda>(run, s). pending s)")
     (auto dest!: first_awaiting_Some intro: pending_complete)

declare join.simps [simp del]

text \<open>
  The body shared by \<open>generateImageBatch\<close> (lines 393-423) and
  \<open>generateImageGlmBatch\<close> (lines 359-389). \<open>batchRequests\<close> is the address of the
  caller's array in the heap \<open>h\<close>; an address outside the heap stands for a value that
  is no array. The call throws for no array and for an empty one. Otherwise
  \<open>slice()\<close> allocates the queue, \<open>Math.min(concurrency, queue.length)\<close> workers are
  started (a length below zero gives none), and the awaited calls complete in some
  order: first the workers named by \<open>sched\<close>, one completion each, then whatever is
  left. The final state holds the returned \<open>results\<close>.
\<close>

definition run_batch :: "job_fn \<Rightarrow> nat list \<Rightarrow> job list list \<Rightarrow> nat \<Rightarrow> int \<Rightarrow> error + batch_state" where
  "run_batch run sched h batchRequests concurrency =
     (case array_at h batchRequests of
        None \<Rightarrow> Inl MissingBatch
      | Some js \<Rightarrow>
          if length js = 0 then Inl MissingBatch
          else Inr (join run (fold (complete run) sched
                 (spawn (nat (min concurrency (int (length js))))
                    \<lparr>heap = h @ [js], queue = length h, results = [], workers = [],
                     calls = []\<rparr>))))"

text \<open>The job function never throws, so the \<open>catch\<close> of the worker (lines 376-383 and
  411-417) is never entered.\<close>

definition generateImageBatch ::
  "env \<Rightarrow> nat list \<Rightarrow> job list list \<Rightarrow> nat \<Rightarrow> int \<Rightarrow> string \<Rightarrow> image_config option
     \<Rightarrow> error + batch_state" where
  "generateImageBatch e sched h batchRequests concurrency mdl imageConfig =
     run_batch (\<lambda>p sp. generateImage e p sp mdl imageConfig) sched h batchRequests concurrency"

definition generateImageGlmBatch ::
  "env \<Rightarrow> nat list \<Rightarrow> job list list \<Rightarrow> nat \<Rightarrow> int \<Rightarrow> string \<Rightarrow> error + batch_state" where
  "generateImageGlmBatch e sched h batchRequests concurrency sz =
     run_batch (\<lambda>p sp. generateImageGlm e p sp sz) sched h batchRequests concurrency"

text \<open>What a job yields when taken alone: the failing result for a missing prompt and
  no call, otherwise the result and the calls of the job function.\<close>

definition job_outcome :: "job_fn \<Rightarrow> job \<Rightarrow> job_result" where
  "job_outcome run j =
     (if has_prompt j then snd (run (the (job_prompt j)) (job_saveToFilePath j))
      else missing_prompt j)"

definition job_calls :: "job_fn \<Rightarrow> job \<Rightarrow> http_call list" where
  "job_calls run j =
     (if has_prompt j then fst (run (the (job_prompt j)) (job_saveToFilePath j)) else [])"

text \<open>The results and the calls of the jobs that workers are awaiting.\<close>

fun awaited_result :: "job_fn \<Rightarrow> worker \<Rightarrow> job_result list" where
  "awaited_result run (Awaiting p sp) = [snd (run p sp)]"
| "awaited_result run Finished = []"

fun awaited_call :: "job_fn \<Rightarrow> worker \<Rightarrow> http_call list" where
  "awaited_call run (Awaiting p sp) = fst (run p sp)"
| "awaited_call run Finished = []"

text \<open>
  The invariant of a batch over the caller's heap \<open>h\<close> and the submitted jobs
  \<open>js\<close>: the queue is the one array allocated behind the caller's, which are
  untouched; the results pushed, the jobs queued and the jobs awaited account for
  each submitted job once, and so do the calls; a worker has finished only if the queue
  is empty.
\<close>

definition batch_inv :: "job_fn \<Rightarrow> job list list \<Rightarrow> job list \<Rightarrow> batch_state \<Rightarrow> bool" where
  "batch_inv run h js s =
     (length (heap s) = Suc (length h) \<and> queue s = length h \<and> take (length h) (heap s) = h
      \<and> mset (results s) + mset (map (job_outcome run) (queue_of s))
          + mset (concat (map (awaited_result run) (workers s)))
        = mset (map (job_outcome run) js)
      \<and> mset (calls s) + mset (concat (map (job_calls run) (queue_of s)))
          + mset (concat (map (awaited_call run) (workers s)))
        = mset (concat (map (job_calls run) js))
      \<and> (Finished \<in> set (workers s) \<longrightarrow> queue_of s = []))"

section \<open>A concrete environment\<close>

text \<open>
  An environment to run the functions in: every POST is answered with status 200 and
  the text \<open>responseText\<close>, every GET with status 200 and the bytes 1, 2, 3;
  \<open>JSON.parse\<close> knows the texts of \<open>table\<close>; \<open>Buffer.from\<close> decodes the standard
  base64 alphabet up to the first other character; the file system accepts
  everything.
\<close>

fun base64_bytes :: "nat list \<Rightarrow> nat list" where
  "base64_bytes (a # b # c # d # r) =
     (a * 4 + b div 16) # ((b mod 16) * 16 + c div 4) # ((c mod 4) * 64 + d) # base64_bytes r"
| "base64_bytes [a, b, c] = [a * 4 + b div 16, (b mod 16) * 16 + c div 4]"
| "base64_bytes [a, b] = [a * 4 + b div 16]"
| "base64_bytes r = []"

definition base64_value :: "char \<Rightarrow> nat option" where
  "base64_value c =
     map_of (zip ''ABCDEFGHIJKLMNOPQRSTUVWXYZabcdefghijklmnopqrstuvwxyz0123456789+/''
               [0 ..< 64]) c"

definition base64_decode :: "jsval \<Rightarrow> error + bytes" where
  "base64_decode v =
     (case v of
        JStr s \<Rightarrow> Inr (base64_bytes (map (\<lambda>c. the (base64_value c))
                                      (takeWhile (\<lambda>c. base64_value c \<noteq> None) s)))
      | _ \<Rightarrow> Inl TypeError)"

definition demo_fetch :: "string \<Rightarrow> http_call \<Rightarrow> error + response" where
  "demo_fetch responseText call =
     (case call of
        Get u \<Rightarrow> Inr \<lparr>ok = True, status = 200, body_text = [], buffer = [1, 2, 3]\<rparr>
      | _ \<Rightarrow> Inr \<lparr>ok = True, status = 200, body_text = responseText, buffer = []\<rparr>)"

definition demo_env :: "string \<Rightarrow> (string \<times> jsval) list \<Rightarrow> env" where
  "demo_env responseText table =
     \<lparr>fetch = demo_fetch responseText,
      JSON_parse = map_of table,
      Buffer_from = base64_decode,
      toString_base64 = (\<lambda>b. ''AAAA''),
      fs_access = (\<lambda>d. True),
      fs_mkdir = (\<lambda>d. None),
      fs_writeFile = (\<lambda>p b. None),
      fs_readFile = (\<lambda>p. Inr [0, 0, 0]),
      toISOString = ''2026-01-01T00:00:00.000Z'',
      path_join = (\<lambda>d n. d @ ''/'' @ n),
      apiKey = ''key'',
      chatApiUrl = ''https://openrouter.ai/api/v1/chat/completions'',
      modelGlmImage = ''glm-image'',
      zhipuApiKey = ''key'',
      zhipuApiBase = ''https://open.bigmodel.cn/api/paas/v4'',
      outputDir = ''/out'',
      projectDir = ''/project''\<rparr>"

text \<open>Values of responses: an entry of \<open>message.images\<close>, an inline image part, a
  response with one choice holding a message, and a stream frame with a delta.\<close>

definition image_entry :: "string \<Rightarrow> jsval" where
  "image_entry u = JObj [(''type'', JStr ''image_url''), (''image_url'', JObj [(''url'', JStr u)])]"

definition inline_part :: "string \<Rightarrow> jsval" where
  "inline_part d =
     JObj [(''type'', JStr ''image''),
           (''inline_data'', JObj [(''mime_type'', JStr ''image/png''), (''data'', JStr d)])]"

definition message_response :: "(string \<times> jsval) list \<Rightarrow> jsval" where
  "message_response kvs = JObj [(''choices'', JArr [JObj [(''message'', JObj kvs)]])]"

definition delta_frame :: "jsval \<Rightarrow> jsval" where
  "delta_frame c = JObj [(''choices'', JArr [JObj [(''delta'', JObj [(''content'', c)])]])]"

text \<open>Jobs for the examples: one with a prompt, one without, one with an empty one.\<close>

definition cat_job :: job where
  "cat_job = \<lparr>job_prompt = Some ''a cat'', job_saveToFilePath = None\<rparr>"

definition no_prompt_job :: job where
  "no_prompt_job = \<lparr>job_prompt = None, job_saveToFilePath = Some ''x.png''\<rparr>"

definition empty_prompt_job :: job where
  "empty_prompt_job = \<lparr>job_prompt = Some [], job_saveToFilePath = None\<rparr>"

text \<open>The variables held by an outcome, thrown or not.\<close>

fun state_of :: "'a outcome \<Rightarrow> 'a" where
  "state_of (Normal a) = a"
| "state_of (Thrown a) = a"

text \<open>
  What the loop over \<open>message.images\<close> assigns for one entry, if anything: group 1 of
  the anchored data-URL expression on \<open>image_url.url\<close>. An entry is well formed when
  it is not \<open>null\<close> and its \<open>url\<close>, when truthy, is a string: then the loop body
  does not throw. \<open>payloads\<close> lists what the entries of an array hold, in order.
\<close>

definition entry_payload :: "jsval \<Rightarrow> string option" where
  "entry_payload img =
     (if getp img ''type'' = JStr ''image_url'' \<and> truthy (getp img ''image_url'')
         \<and> truthy (getp (getp img ''image_url'') ''url'') then
        (case getp (getp img ''image_url'') ''url'' of
           JStr u \<Rightarrow> match_data_url_whole u
         | _ \<Rightarrow> None)
      else None)"

definition entry_ok :: "jsval \<Rightarrow> bool" where
  "entry_ok img =
     (img \<noteq> JNull \<and> img \<noteq> JUndefined
      \<and> (case getp (getp img ''image_url'') ''url'' of JStr u \<Rightarrow> True | v \<Rightarrow> \<not> truthy v))"

definition payloads :: "jsval list \<Rightarrow> string list" where
  "payloads imgs = List.map_filter entry_payload imgs"

text \<open>Responses for the examples. The text of a response is a name that the table of
  \<open>demo_env\<close> maps to the parsed value.\<close>

definition two_images :: jsval where
  "two_images =
     message_response
       [(''images'', JArr [image_entry ''data:image/png;base64,AAAA'',
                           image_entry ''data:image/png;base64,////''])]"

definition url_and_data_url :: jsval where
  "url_and_data_url =
     message_response
       [(''content'', JStr ''see http://a.b/c.png or data:image/jpeg;base64,AAAA ok'')]"

definition url_only :: jsval where
  "url_only = message_response [(''content'', JStr ''see http://a.b/c.png ok'')]"

definition refusal :: jsval where
  "refusal = message_response [(''content'', JStr ''I cannot draw that.'')]"

text \<open>A text part of a content array, and a stream of two lines: a data frame whose
  text is \<open>F\<close>, and the terminating sentinel.\<close>

definition text_part :: "string \<Rightarrow> jsval" where
  "text_part t = JObj [(''type'', JStr ''text''), (''text'', JStr t)]"

definition sse_text :: string where
  "sse_text = ''data: F'' @ [CHR 0x0A] @ ''data: [DONE]'' @ [CHR 0x0A]"

text \<open>The same stream with the frame written \<open>data:F\<close>, without the space that
  may follow the colon of an event-stream field.\<close>

definition sse_text_unspaced :: string where
  "sse_text_unspaced = ''data:F'' @ [CHR 0x0A] @ ''data: [DONE]'' @ [CHR 0x0A]"

definition sse_frame :: jsval where
  "sse_frame = delta_frame (JArr (map text_part [''Here it is: ''] @ [inline_part ''AAAA'']))"

text \<open>The value of \<open>data.data[0].url\<close> in a response of the direct provider, read
  without throwing: \<open>undefined\<close> when a step of the path is missing.\<close>

definition first_url :: "jsval \<Rightarrow> jsval" where
  "first_url data =
     getp (case index0 (getp data ''data'') of None \<Rightarrow> JUndefined | Some d0 \<Rightarrow> d0) ''url''"

section \<open>The batch invariant\<close>

lemma worker_loop_ledger:
  "worker_loop q rs = (w, q', rs') \<Longrightarrow>
     mset rs' + mset (map (job_outcome run) q') + mset (awaited_result run w)
       = mset rs + mset (map (job_outcome run) q)
     \<and> mset (concat (map (job_calls run) q')) + mset (awaited_call run w)
       = mset (concat (map (job_calls run) q))"
  by (induction q rs rule: worker_loop.induct)
     (auto simp: job_outcome_def job_calls_def split: if_splits)

lemma run_worker_step:
  assumes valid: "queue s < length (heap s)"
    and rw: "run_worker s = (w, s')"
  shows "heap s' = (heap s)[queue s := queue_of s']" "queue s' = queue s"
    "workers s' = workers s" "calls s' = calls s"
    "mset (results s') + mset (map (job_outcome run) (queue_of s')) + mset (awaited_result run w)
       = mset (results s) + mset (map (job_outcome run) (queue_of s))"
    "mset (concat (map (job_calls run) (queue_of s'))) + mset (awaited_call run w)
       = mset (concat (map (job_calls run) (queue_of s)))"
    "w = Finished \<longrightarrow> queue_of s' = []"
    "queue_of s = [] \<longrightarrow> queue_of s' = []"
proof -
  obtain q rs where wl: "worker_loop (queue_of s) (results s) = (w, q, rs)"
    using rw by (auto simp: run_worker_def split: prod.splits)
  have s': "s' = s\<lparr>heap := (heap s)[queue s := q], results := rs\<rparr>"
    using rw wl by (simp add: run_worker_def)
  have q': "queue_of s' = q"
    using valid by (simp add: s' queue_of_def array_at_def)
  show "heap s' = (heap s)[queue s := queue_of s']" by (simp add: q') (simp add: s')
  show "queue s' = queue s" "workers s' = workers s" "calls s' = calls s"
    by (simp_all add: s')
  have r: "results s' = rs" by (simp add: s')
  show "mset (results s') + mset (map (job_outcome run) (queue_of s')) + mset (awaited_result run w)
       = mset (results s) + mset (map (job_outcome run) (queue_of s))"
    unfolding q' r using worker_loop_ledger[OF wl, of run] by blast
  show "mset (concat (map (job_calls run) (queue_of s'))) + mset (awaited_call run w)
       = mset (concat (map (job_calls run) (queue_of s)))"
    unfolding q' using worker_loop_ledger[OF wl, of run] by blast
  show "w = Finished \<longrightarrow> queue_of s' = []"
    unfolding q' using worker_loop_length[OF wl] by blast
  show "queue_of s = [] \<longrightarrow> queue_of s' = []"
    unfolding q' using wl by auto
qed


lemma queue_of_workers [simp]: "queue_of (s\<lparr>workers := ws\<rparr>) = queue_of s"
  by (simp add: queue_of_def)

lemma queue_of_push [simp]: "queue_of (s\<lparr>results := rs, calls := cs\<rparr>) = queue_of s"
  by (simp add: queue_of_def)

lemma inv_spawn_step:
  assumes inv: "batch_inv run h js s" and rw: "run_worker s = (w, s')"
  shows "batch_inv run h js (s'\<lparr>workers := workers s' @ [w]\<rparr>)"
proof -
  have valid: "queue s < length (heap s)" using inv by (simp add: batch_inv_def)
  note st = run_worker_step[OF valid rw]
  have R: "mset (results s) + mset (map (job_outcome run) (queue_of s))
          + mset (concat (map (awaited_result run) (workers s)))
        = mset (map (job_outcome run) js)"
    and C: "mset (calls s) + mset (concat (map (job_calls run) (queue_of s)))
          + mset (concat (map (awaited_call run) (workers s)))
        = mset (concat (map (job_calls run) js))"
    and F: "Finished \<in> set (workers s) \<longrightarrow> queue_of s = []"
    and H: "length (heap s) = Suc (length h)" "queue s = length h" "take (length h) (heap s) = h"
    using inv by (simp_all add: batch_inv_def)
  have h1: "length (heap s') = Suc (length h) \<and> queue s' = length h \<and> take (length h) (heap s') = h"
    using st(1,2) H by simp
  have "mset (results s') + mset (map (job_outcome run) (queue_of s'))
          + mset (concat (map (awaited_result run) (workers s @ [w])))
        = (mset (results s') + mset (map (job_outcome run) (queue_of s')) + mset (awaited_result run w))
          + mset (concat (map (awaited_result run) (workers s)))"
    by (simp only: map_append concat_append mset_append list.map concat.simps append_Nil2 ac_simps)
  also have "\<dots> = mset (map (job_outcome run) js)"
    unfolding st(5) using R .
  finally have r1: "mset (results s') + mset (map (job_outcome run) (queue_of s'))
          + mset (concat (map (awaited_result run) (workers s @ [w])))
        = mset (map (job_outcome run) js)" .
  have "mset (calls s') + mset (concat (map (job_calls run) (queue_of s')))
          + mset (concat (map (awaited_call run) (workers s @ [w])))
        = mset (calls s) + (mset (concat (map (job_calls run) (queue_of s'))) + mset (awaited_call run w))
          + mset (concat (map (awaited_call run) (workers s)))"
    unfolding st(4)
    by (simp only: map_append concat_append mset_append list.map concat.simps append_Nil2 ac_simps)
  also have "\<dots> = mset (concat (map (job_calls run) js))"
    unfolding st(6) using C .
  finally have c1: "mset (calls s') + mset (concat (map (job_calls run) (queue_of s')))
          + mset (concat (map (awaited_call run) (workers s @ [w])))
        = mset (concat (map (job_calls run) js))" .
  have f1: "Finished \<in> set (workers s @ [w]) \<longrightarrow> queue_of s' = []"
    using F st(7,8) by auto
  show ?thesis
    unfolding batch_inv_def using h1 r1 c1 f1 by (simp add: st(3))
qed

lemma inv_spawn:
  "batch_inv run h js s \<Longrightarrow>
     batch_inv run h js (spawn n s) \<and> length (workers (spawn n s)) = length (workers s) + n"
proof (induction n arbitrary: s)
  case 0
  then show ?case by simp
next
  case (Suc n)
  obtain w s' where rw: "run_worker s = (w, s')" by (cases "run_worker s")
  have valid: "queue s < length (heap s)" using Suc.prems by (simp add: batch_inv_def)
  have ws: "workers s' = workers s" using run_worker_step(3)[OF valid rw] .
  from Suc.IH[OF inv_spawn_step[OF Suc.prems rw]] show ?case
    by (simp add: rw ws)
qed

lemma awaited_update:
  "i < length ws \<Longrightarrow>
     mset (concat (map f (ws[i := w]))) + mset (f (ws ! i)) = mset (concat (map f ws)) + mset (f w)"
proof (induction ws arbitrary: i)
  case Nil
  then show ?case by simp
next
  case (Cons a ws)
  show ?case
  proof (cases i)
    case 0
    then show ?thesis by simp
  next
    case (Suc k)
    with Cons.prems have "k < length ws" by simp
    from Cons.IH[OF this] show ?thesis by (simp add: Suc)
  qed
qed

lemma inv_complete:
  assumes inv: "batch_inv run h js s"
  shows "batch_inv run h js (complete run i s)"
    and "length (workers (complete run i s)) = length (workers s)"
proof -
  have both: "batch_inv run h js (complete run i s)
      \<and> length (workers (complete run i s)) = length (workers s)"
  proof (cases "i < length (workers s) \<and> workers s ! i \<noteq> Finished")
    case False
    then show ?thesis using inv by (auto simp: complete_def split: worker.splits)
  next
    case True
    then obtain p sp where i: "i < length (workers s)" and wi: "workers s ! i = Awaiting p sp"
      by (cases "workers s ! i") auto
    define s1 where "s1 = s\<lparr>results := results s @ [snd (run p sp)], calls := calls s @ fst (run p sp)\<rparr>"
    obtain w s' where rw: "run_worker s1 = (w, s')" by (cases "run_worker s1")
    have c: "complete run i s = s'\<lparr>workers := (workers s')[i := w]\<rparr>"
      using i wi rw by (simp add: complete_def s1_def)
    have valid: "queue s1 < length (heap s1)" using inv by (simp add: batch_inv_def s1_def)
    note st = run_worker_step[OF valid rw]
    have R: "mset (results s) + mset (map (job_outcome run) (queue_of s))
          + mset (concat (map (awaited_result run) (workers s)))
        = mset (map (job_outcome run) js)"
    and C: "mset (calls s) + mset (concat (map (job_calls run) (queue_of s)))
          + mset (concat (map (awaited_call run) (workers s)))
        = mset (concat (map (job_calls run) js))"
    and F: "Finished \<in> set (workers s) \<longrightarrow> queue_of s = []"
    and H: "length (heap s) = Suc (length h)" "queue s = length h" "take (length h) (heap s) = h"
      using inv by (simp_all add: batch_inv_def)
    have q1: "queue_of s1 = queue_of s" by (simp add: s1_def)
    have w1: "workers s' = workers s" using st(3) by (simp add: s1_def)
    have h1: "length (heap s') = Suc (length h) \<and> queue s' = length h \<and> take (length h) (heap s') = h"
      using st(1,2) H by (simp add: s1_def)
    have ur: "mset (concat (map (awaited_result run) ((workers s)[i := w]))) + {#snd (run p sp)#}
        = mset (concat (map (awaited_result run) (workers s))) + mset (awaited_result run w)"
      using awaited_update[OF i, of "awaited_result run" w] by (simp add: wi)
    have uc: "mset (concat (map (awaited_call run) ((workers s)[i := w]))) + mset (fst (run p sp))
        = mset (concat (map (awaited_call run) (workers s))) + mset (awaited_call run w)"
      using awaited_update[OF i, of "awaited_call run" w] by (simp add: wi)
    have r5: "mset (results s') + mset (map (job_outcome run) (queue_of s')) + mset (awaited_result run w)
       = mset (results s) + {#snd (run p sp)#} + mset (map (job_outcome run) (queue_of s))"
      using st(5) by (simp add: s1_def)
    have "mset (results s') + mset (map (job_outcome run) (queue_of s'))
            + mset (concat (map (awaited_result run) ((workers s)[i := w]))) + {#snd (run p sp)#}
         = (mset (results s') + mset (map (job_outcome run) (queue_of s')) + mset (awaited_result run w))
            + mset (concat (map (awaited_result run) (workers s)))"
      using ur by (metis (no_types, lifting) add.assoc add.commute)
    also have "\<dots> = mset (map (job_outcome run) js) + {#snd (run p sp)#}"
      unfolding r5 using R by (metis (no_types, lifting) add.assoc add.commute)
    finally have r1: "mset (results s') + mset (map (job_outcome run) (queue_of s'))
            + mset (concat (map (awaited_result run) ((workers s)[i := w])))
         = mset (map (job_outcome run) js)"
      by simp
    have c5: "mset (concat (map (job_calls run) (queue_of s'))) + mset (awaited_call run w)
       = mset (concat (map (job_calls run) (queue_of s)))"
      using st(6) by (simp add: s1_def)
    have cs: "calls s' = calls s @ fst (run p sp)" using st(4) by (simp add: s1_def)
    have "mset (calls s') + mset (concat (map (job_calls run) (queue_of s')))
            + mset (concat (map (awaited_call run) ((workers s)[i := w])))
         = mset (calls s) + mset (concat (map (job_calls run) (queue_of s')))
            + (mset (concat (map (awaited_call run) ((workers s)[i := w]))) + mset (fst (run p sp)))"
      unfolding cs by (simp only: mset_append ac_simps)
    also have "\<dots> = mset (calls s) + (mset (concat (map (job_calls run) (queue_of s'))) + mset (awaited_call run w))
            + mset (concat (map (awaited_call run) (workers s)))"
      unfolding uc by (simp only: ac_simps)
    also have "\<dots> = mset (concat (map (job_calls run) js))"
      unfolding c5 using C .
    finally have c1: "mset (calls s') + mset (concat (map (job_calls run) (queue_of s')))
            + mset (concat (map (awaited_call run) ((workers s)[i := w])))
         = mset (concat (map (job_calls run) js))" .
    have f1: "Finished \<in> set ((workers s)[i := w]) \<longrightarrow> queue_of s' = []"
    proof
      assume "Finished \<in> set ((workers s)[i := w])"
      then have "Finished \<in> set (workers s) \<or> w = Finished"
        using set_update_subset_insert[of "workers s" i w] by auto
      then show "queue_of s' = []"
        using F st(7,8) q1 by auto
    qed
    show ?thesis
      unfolding batch_inv_def c using h1 r1 c1 f1 by (simp add: w1)
  qed
  from both show "batch_inv run h js (complete run i s)"
    and "length (workers (complete run i s)) = length (workers s)" by simp_all
qed

lemma inv_fold:
  "batch_inv run h js s \<Longrightarrow>
     batch_inv run h js (fold (complete run) sched s)
     \<and> length (workers (fold (complete run) sched s)) = length (workers s)"
  by (induction sched arbitrary: s) (simp_all add: inv_complete)

lemma inv_join:
  "batch_inv run h js s \<Longrightarrow>
     batch_inv run h js (join run s) \<and> length (workers (join run s)) = length (workers s)
     \<and> first_awaiting (workers (join run s)) = None"
proof (induction run s rule: join.induct)
  case (1 run s)
  show ?case
  proof (cases "first_awaiting (workers s)")
    case None
    then have "join run s = s" by (subst join.simps) simp
    then show ?thesis using "1.prems" None by simp
  next
    case (Some i)
    then have "join run s = join run (complete run i s)" by (subst join.simps) simp
    with "1.IH"[OF Some inv_complete(1)[OF "1.prems"]] inv_complete(2)[OF "1.prems", of i]
    show ?thesis by simp
  qed
qed


lemma all_finished_awaited:
  "\<forall>w \<in> set ws. w = Finished \<Longrightarrow> concat (map (awaited_result run) ws) = []
     \<and> concat (map (awaited_call run) ws) = []"
  by (induction ws) auto

lemma run_batch_inv:
  assumes a: "array_at h a = Some js" and ne: "js \<noteq> []"
  shows "\<exists>s. run_batch run sched h a c = Inr s \<and> batch_inv run h js s
           \<and> first_awaiting (workers s) = None
           \<and> length (workers s) = nat (min c (int (length js)))"
proof -
  define s0 where "s0 = \<lparr>heap = h @ [js], queue = length h, results = [], workers = [],
                     calls = []\<rparr>"
  have i0: "batch_inv run h js s0"
    by (simp add: batch_inv_def s0_def queue_of_def array_at_def)
  define n where "n = nat (min c (int (length js)))"
  have i1: "batch_inv run h js (spawn n s0)" "length (workers (spawn n s0)) = n"
    using inv_spawn[OF i0, of n] by (simp_all add: s0_def)
  have i2: "batch_inv run h js (fold (complete run) sched (spawn n s0))"
    "length (workers (fold (complete run) sched (spawn n s0))) = n"
    using inv_fold[OF i1(1), of sched] i1(2) by simp_all
  have r: "run_batch run sched h a c = Inr (join run (fold (complete run) sched (spawn n s0)))"
    using a ne by (simp add: run_batch_def s0_def n_def)
  show ?thesis
    using inv_join[OF i2(1)] i2(2) r by (simp add: n_def)
qed

lemma run_batch_complete:
  assumes a: "array_at h a = Some js" and ne: "js \<noteq> []" and c: "1 \<le> c"
  shows "\<exists>s. run_batch run sched h a c = Inr s
           \<and> mset (results s) = mset (map (job_outcome run) js)
           \<and> mset (calls s) = mset (concat (map (job_calls run) js))
           \<and> queue_of s = []"
proof -
  from run_batch_inv[OF a ne, of run sched c] obtain s where
    r: "run_batch run sched h a c = Inr s" and inv: "batch_inv run h js s"
    and fa: "first_awaiting (workers s) = None"
    and len: "length (workers s) = nat (min c (int (length js)))" by blast
  have allfin: "\<forall>w \<in> set (workers s). w = Finished"
    using fa by (simp add: first_awaiting_None)
  have "0 < length (workers s)" using len c ne by (cases js) auto
  then have "workers s \<noteq> []" by simp
  then have "Finished \<in> set (workers s)" using allfin by (cases "workers s") auto
  then have q: "queue_of s = []" using inv by (simp add: batch_inv_def)
  have "mset (results s) = mset (map (job_outcome run) js)"
    "mset (calls s) = mset (concat (map (job_calls run) js))"
    using inv q all_finished_awaited[OF allfin, of run] by (simp_all add: batch_inv_def)
  with r q show ?thesis by simp
qed

lemma run_batch_frame:
  assumes a: "array_at h a = Some js" and r: "run_batch run sched h a c = Inr s"
  shows "array_at (heap s) a = Some js \<and> take (length h) (heap s) = h \<and> queue s = length h"
proof -
  have ne: "js \<noteq> []" using a r by (auto simp: run_batch_def)
  from run_batch_inv[OF a ne, of run sched c] r have inv: "batch_inv run h js s" by auto
  have al: "a < length h" "h ! a = js" using a by (auto simp: array_at_def split: if_splits)
  have t: "take (length h) (heap s) = h" "length (heap s) = Suc (length h)" "queue s = length h"
    using inv by (simp_all add: batch_inv_def)
  have "heap s ! a = take (length h) (heap s) ! a" using al(1) by simp
  then have "heap s ! a = js" using t(1) al(2) by simp
  then show ?thesis using t al by (simp add: array_at_def)
qed

lemma run_batch_calls:
  assumes a: "array_at h a = Some js" and r: "run_batch run sched h a c = Inr s"
  shows "mset (calls s) \<subseteq># mset (concat (map (job_calls run) js))"
proof -
  have ne: "js \<noteq> []" using a r by (auto simp: run_batch_def)
  from run_batch_inv[OF a ne, of run sched c] r have inv: "batch_inv run h js s" by auto
  then have "mset (calls s) + (mset (concat (map (job_calls run) (queue_of s)))
          + mset (concat (map (awaited_call run) (workers s))))
        = mset (concat (map (job_calls run) js))"
    by (simp add: batch_inv_def add.assoc)
  then show ?thesis by (metis mset_subset_eq_add_left)
qed

section \<open>The batch executor\<close>

text \<open>
  C1, as stated: for every accepted list of jobs and every concurrency value the
  returned list has one result per job. It fails at concurrency 0 and below:
  \<open>Array.from\<close> with a length of 0 or less starts no worker, nothing drains the
  queue, and both batch functions return the empty list for a batch of one job.
\<close>

theorem C1_no_worker_counterexample:
  "map_sum id results
     (generateImageBatch (demo_env [] []) [] [[cat_job]] 0 (- 1) ''m'' None) = Inr []
   \<and> map_sum id results
     (generateImageGlmBatch (demo_env [] []) [] [[cat_job]] 0 0 ''1024x1024'') = Inr []
   \<and> length [cat_job] = 1"
  by (simp add: generateImageBatch_def generateImageGlmBatch_def run_batch_def array_at_def
      join.simps)

text \<open>
  C1, amended: for every non-empty array of jobs, every concurrency value of at least
  1 and every order in which the awaited calls complete, \<open>generateImageBatch\<close> and
  \<open>generateImageGlmBatch\<close> return, and the returned list has exactly as many results
  as there are jobs: as a multiset it holds, for each submitted job, the result of that
  job (none dropped, none duplicated), whether the job succeeds or fails.
\<close>

theorem C1_one_result_per_job:
  assumes "array_at h batchRequests = Some js" and "js \<noteq> []" and "1 \<le> concurrency"
  shows "(\<exists>s. generateImageBatch e sched h batchRequests concurrency mdl imageConfig = Inr s
            \<and> length (results s) = length js
            \<and> mset (results s)
                = mset (map (job_outcome (\<lambda>p sp. generateImage e p sp mdl imageConfig)) js))
       \<and> (\<exists>s. generateImageGlmBatch e sched h batchRequests concurrency sz = Inr s
            \<and> length (results s) = length js
            \<and> mset (results s)
                = mset (map (job_outcome (\<lambda>p sp. generateImageGlm e p sp sz)) js))"
proof -
  have len: "length rs = length js" if "mset rs = mset (map f js)" for rs :: "job_result list" and f
    using that by (metis length_map size_mset)
  from run_batch_complete[OF assms, of "\<lambda>p sp. generateImage e p sp mdl imageConfig" sched]
  have g: "\<exists>s. generateImageBatch e sched h batchRequests concurrency mdl imageConfig = Inr s
            \<and> length (results s) = length js
            \<and> mset (results s)
                = mset (map (job_outcome (\<lambda>p sp. generateImage e p sp mdl imageConfig)) js)"
    unfolding generateImageBatch_def using len by blast
  from run_batch_complete[OF assms, of "\<lambda>p sp. generateImageGlm e p sp sz" sched]
  have z: "\<exists>s. generateImageGlmBatch e sched h batchRequests concurrency sz = Inr s
            \<and> length (results s) = length js
            \<and> mset (results s)
                = mset (map (job_outcome (\<lambda>p sp. generateImageGlm e p sp sz)) js)"
    unfolding generateImageGlmBatch_def using len by blast
  from g z show ?thesis by blast
qed

theorem C1_one_result_per_job_witness:
  "array_at [[cat_job, no_prompt_job, cat_job]] 0 = Some [cat_job, no_prompt_job, cat_job]
   \<and> (1::int) \<le> 2
   \<and> (\<exists>s. generateImageBatch (demo_env [] []) [1, 0] [[cat_job, no_prompt_job, cat_job]] 0 2
              ''m'' None = Inr s
          \<and> length (results s) = 3)
   \<and> (\<exists>s. generateImageGlmBatch (demo_env [] []) [1, 0] [[cat_job, no_prompt_job, cat_job]] 0 2
              ''1024x1024'' = Inr s
          \<and> length (results s) = 3)"
proof -
  have a: "array_at [[cat_job, no_prompt_job, cat_job]] 0 = Some [cat_job, no_prompt_job, cat_job]"
    by (simp add: array_at_def)
  have n: "[cat_job, no_prompt_job, cat_job] \<noteq> []" by simp
  have c: "(1::int) \<le> 2" by simp
  from C1_one_result_per_job[OF a n c, of "demo_env [] []" "[1, 0]" "''m''" None "''1024x1024''"]
  show ?thesis using a by auto
qed

text \<open>
  C7, as stated: for every batch that contains a job whose prompt is missing or empty,
  that job has an entry in the result list, a failing one. It fails when the
  concurrency is below 1: no worker is started, and the batch of a job with a prompt
  and a job with an empty prompt returns the empty list, with no entry for either.
\<close>

theorem C7_no_entry_counterexample:
  "\<not> has_prompt empty_prompt_job
   \<and> map_sum id results
       (generateImageBatch (demo_env [] []) [] [[cat_job, empty_prompt_job]] 0 (- 1) ''m'' None)
     = Inr []
   \<and> map_sum id results
       (generateImageGlmBatch (demo_env [] []) [] [[cat_job, empty_prompt_job]] 0 (- 1)
          ''1024x1024'')
     = Inr []"
  by (simp add: has_prompt_def empty_prompt_job_def generateImageBatch_def
      generateImageGlmBatch_def run_batch_def array_at_def join.simps)

text \<open>
  C7, amended: for every batch run with a concurrency of at least 1 that contains a
  job whose prompt is missing or empty, the returned list holds for that job the
  failing result \<open>{success: false, error: <missing prompt>, prompt}\<close>, pushed by the
  worker in the same uninterrupted run in which it shifted the job off the queue; the
  calls of \<open>fetch\<close> made by the whole batch are those of the other jobs alone, and the
  other results are the other jobs' own results. Whatever the number of workers
  \<open>n\<close>, every call the batch makes is a call of one of the other jobs.
\<close>

theorem C7_missing_prompt_isolated:
  assumes "array_at h batchRequests = Some (before @ j # after)" and "\<not> has_prompt j"
    and "1 \<le> concurrency"
  shows "(\<exists>s. generateImageBatch e sched h batchRequests concurrency mdl imageConfig = Inr s
            \<and> mset (results s)
                = add_mset (missing_prompt j)
                    (mset (map (job_outcome (\<lambda>p sp. generateImage e p sp mdl imageConfig))
                            (before @ after)))
            \<and> mset (calls s)
                = mset (concat (map (job_calls (\<lambda>p sp. generateImage e p sp mdl imageConfig))
                                  (before @ after))))
       \<and> (\<exists>s. generateImageGlmBatch e sched h batchRequests concurrency sz = Inr s
            \<and> mset (results s)
                = add_mset (missing_prompt j)
                    (mset (map (job_outcome (\<lambda>p sp. generateImageGlm e p sp sz))
                            (before @ after)))
            \<and> mset (calls s)
                = mset (concat (map (job_calls (\<lambda>p sp. generateImageGlm e p sp sz))
                                  (before @ after))))
       \<and> success (missing_prompt j) = False \<and> error (missing_prompt j) = Some MissingPrompt
       \<and> worker_loop (j # q) rs = worker_loop q (rs @ [missing_prompt j])
       \<and> (generateImageBatch e sched h batchRequests n mdl imageConfig = Inr t \<longrightarrow>
            mset (calls t)
              \<subseteq># mset (concat (map (job_calls (\<lambda>p sp. generateImage e p sp mdl imageConfig))
                                   (before @ after))))
       \<and> (generateImageGlmBatch e sched h batchRequests n sz = Inr t' \<longrightarrow>
            mset (calls t')
              \<subseteq># mset (concat (map (job_calls (\<lambda>p sp. generateImageGlm e p sp sz))
                                   (before @ after))))"
proof -
  have ne: "before @ j # after \<noteq> []" by simp
  have o: "mset (map (job_outcome run) (before @ j # after))
             = add_mset (missing_prompt j) (mset (map (job_outcome run) (before @ after)))" for run
    using assms(2) by (simp add: job_outcome_def)
  have c: "concat (map (job_calls run) (before @ j # after))
             = concat (map (job_calls run) (before @ after))" for run
    using assms(2) by (simp add: job_calls_def)
  from run_batch_complete[OF assms(1) ne assms(3),
      of "\<lambda>p sp. generateImage e p sp mdl imageConfig" sched]
  have g: "\<exists>s. generateImageBatch e sched h batchRequests concurrency mdl imageConfig = Inr s
            \<and> mset (results s)
                = add_mset (missing_prompt j)
                    (mset (map (job_outcome (\<lambda>p sp. generateImage e p sp mdl imageConfig))
                            (before @ after)))
            \<and> mset (calls s)
                = mset (concat (map (job_calls (\<lambda>p sp. generateImage e p sp mdl imageConfig))
                                  (before @ after)))"
    unfolding generateImageBatch_def o c by blast
  from run_batch_complete[OF assms(1) ne assms(3), of "\<lambda>p sp. generateImageGlm e p sp sz" sched]
  have z: "\<exists>s. generateImageGlmBatch e sched h batchRequests concurrency sz = Inr s
            \<and> mset (results s)
                = add_mset (missing_prompt j)
                    (mset (map (job_outcome (\<lambda>p sp. generateImageGlm e p sp sz))
                            (before @ after)))
            \<and> mset (calls s)
                = mset (concat (map (job_calls (\<lambda>p sp. generateImageGlm e p sp sz))
                                  (before @ after)))"
    unfolding generateImageGlmBatch_def o c by blast
  have m: "success (missing_prompt j) = False \<and> error (missing_prompt j) = Some MissingPrompt"
    by (simp add: missing_prompt_def)
  have w: "worker_loop (j # q) rs = worker_loop q (rs @ [missing_prompt j])"
    using assms(2) by simp
  have u: "run_batch run sched h batchRequests n = Inr x \<longrightarrow>
             mset (calls x) \<subseteq># mset (concat (map (job_calls run) (before @ after)))" for run x
    using run_batch_calls[OF assms(1), of run sched n x] by (simp only: c) blast
  have ug: "generateImageBatch e sched h batchRequests n mdl imageConfig = Inr t \<longrightarrow>
            mset (calls t)
              \<subseteq># mset (concat (map (job_calls (\<lambda>p sp. generateImage e p sp mdl imageConfig))
                                   (before @ after)))"
    unfolding generateImageBatch_def by (rule u)
  have uz: "generateImageGlmBatch e sched h batchRequests n sz = Inr t' \<longrightarrow>
            mset (calls t')
              \<subseteq># mset (concat (map (job_calls (\<lambda>p sp. generateImageGlm e p sp sz))
                                   (before @ after)))"
    unfolding generateImageGlmBatch_def by (rule u)
  from g z m w ug uz show ?thesis by blast
qed

theorem C7_missing_prompt_isolated_witness:
  "array_at [[cat_job, empty_prompt_job]] 0 = Some ([cat_job] @ empty_prompt_job # [])
   \<and> \<not> has_prompt empty_prompt_job \<and> (1::int) \<le> 3
   \<and> (\<exists>s. generateImageBatch (demo_env [] []) [] [[cat_job, empty_prompt_job]] 0 3 ''m'' None
              = Inr s
          \<and> mset (results s)
              = {#missing_prompt empty_prompt_job,
                  snd (generateImage (demo_env [] []) ''a cat'' None ''m'' None)#}
          \<and> mset (calls s) = mset (fst (generateImage (demo_env [] []) ''a cat'' None ''m'' None)))"
proof -
  have a: "array_at [[cat_job, empty_prompt_job]] 0 = Some ([cat_job] @ empty_prompt_job # [])"
    by (simp add: array_at_def)
  have n: "\<not> has_prompt empty_prompt_job" by (simp add: has_prompt_def empty_prompt_job_def)
  have c: "(1::int) \<le> 3" by simp
  from C7_missing_prompt_isolated[OF a n c, of "demo_env [] []" "[]" "''m''" None]
  show ?thesis using a n
    by (auto simp: job_outcome_def job_calls_def has_prompt_def cat_job_def)
qed

text \<open>
  C9: the batch functions drain a copy. For a non-empty array of jobs
  \<open>generateImageBatch\<close> and \<open>generateImageGlmBatch\<close> return, and when they have
  returned the caller's array holds the same jobs in the same order, and so does every
  other array the caller had; the queue is a different array, and it is empty when at
  least one worker ran.
\<close>

theorem C9_caller_array_unchanged:
  assumes "array_at h batchRequests = Some js"
  shows "(generateImageBatch e sched h batchRequests concurrency mdl imageConfig = Inr s \<longrightarrow>
            array_at (heap s) batchRequests = Some js \<and> take (length h) (heap s) = h
            \<and> queue s \<noteq> batchRequests \<and> (1 \<le> concurrency \<longrightarrow> queue_of s = []))
       \<and> (generateImageGlmBatch e sched h batchRequests concurrency sz = Inr s' \<longrightarrow>
            array_at (heap s') batchRequests = Some js \<and> take (length h) (heap s') = h
            \<and> queue s' \<noteq> batchRequests \<and> (1 \<le> concurrency \<longrightarrow> queue_of s' = []))
       \<and> (js \<noteq> [] \<longrightarrow>
            (\<exists>u. generateImageBatch e sched h batchRequests concurrency mdl imageConfig = Inr u)
            \<and> (\<exists>u. generateImageGlmBatch e sched h batchRequests concurrency sz = Inr u))"
proof -
  have al: "batchRequests < length h"
    using assms by (auto simp: array_at_def split: if_splits)
  have one: "array_at (heap t) batchRequests = Some js \<and> take (length h) (heap t) = h
            \<and> queue t \<noteq> batchRequests \<and> (1 \<le> concurrency \<longrightarrow> queue_of t = [])"
    if r: "run_batch run sched h batchRequests concurrency = Inr t" for run t
  proof -
    have ne: "js \<noteq> []" using assms r by (auto simp: run_batch_def)
    have e: "1 \<le> concurrency \<longrightarrow> queue_of t = []"
      using run_batch_complete[OF assms ne, of concurrency run sched] r by auto
    from run_batch_frame[OF assms r] al e show ?thesis by auto
  qed
  have ret: "\<exists>u. run_batch run sched h batchRequests concurrency = Inr u" if "js \<noteq> []" for run
    using run_batch_inv[OF assms that, of run sched concurrency] by blast
  show ?thesis
    unfolding generateImageBatch_def generateImageGlmBatch_def using one ret by blast
qed

theorem C9_caller_array_unchanged_witness:
  "array_at [[cat_job, no_prompt_job]] 0 = Some [cat_job, no_prompt_job]
   \<and> (\<exists>s s'. generateImageBatch (demo_env [] []) [0] [[cat_job, no_prompt_job]] 0 1 ''m'' None
                 = Inr s
             \<and> generateImageGlmBatch (demo_env [] []) [0] [[cat_job, no_prompt_job]] 0 1
                 ''1024x1024'' = Inr s'
             \<and> array_at (heap s) 0 = Some [cat_job, no_prompt_job] \<and> queue_of s = []
             \<and> array_at (heap s') 0 = Some [cat_job, no_prompt_job] \<and> queue_of s' = [])"
proof -
  have a: "array_at [[cat_job, no_prompt_job]] 0 = Some [cat_job, no_prompt_job]"
    by (simp add: array_at_def)
  have n: "[cat_job, no_prompt_job] \<noteq> []" by simp
  have c: "(1::int) \<le> 1" by simp
  obtain s where s: "generateImageBatch (demo_env [] []) [0] [[cat_job, no_prompt_job]] 0 1
      ''m'' None = Inr s"
    using run_batch_complete[OF a n c] unfolding generateImageBatch_def by blast
  obtain s' where s': "generateImageGlmBatch (demo_env [] []) [0] [[cat_job, no_prompt_job]] 0 1
      ''1024x1024'' = Inr s'"
    using run_batch_complete[OF a n c] unfolding generateImageGlmBatch_def by blast
  from C9_caller_array_unchanged[OF a, of "demo_env [] []" "[0]" 1 "''m''" None s
      "''1024x1024''" s'] s s' a
  show ?thesis by auto
qed

section \<open>The resolver\<close>

lemma get_prop_Some: "v \<noteq> JNull \<Longrightarrow> v \<noteq> JUndefined \<Longrightarrow> get_prop v k = Some (getp v k)"
  by (cases v) (simp_all add: getp_def)

lemma data_url_whole_nonempty: "match_data_url_whole s = Some p \<Longrightarrow> p \<noteq> []"
  by (auto simp: match_data_url_whole_def split: option.splits if_splits)

lemma images_step_ok:
  assumes "entry_ok img"
  shows "images_step img a =
     Normal (case entry_payload img of Some p \<Rightarrow> a\<lparr>imageBase64 := JStr p\<rparr> | None \<Rightarrow> a)"
proof -
  have g: "get_prop img ''type'' = Some (getp img ''type'')"
    using assms by (simp add: entry_ok_def get_prop_Some)
  show ?thesis
    using assms unfolding images_step_def g entry_payload_def entry_ok_def
    by (cases "getp (getp img ''image_url'') ''url''") (auto split: option.splits)
qed

lemma images_loop_ok:
  "\<forall>img \<in> set imgs. entry_ok img \<Longrightarrow>
     images_loop imgs a =
       Normal (if payloads imgs = [] then a else a\<lparr>imageBase64 := JStr (last (payloads imgs))\<rparr>)"
proof (induction imgs arbitrary: a)
  case Nil
  then show ?case by (simp add: payloads_def List.map_filter_simps)
next
  case (Cons img imgs)
  then have ok: "entry_ok img" and rest: "\<forall>i \<in> set imgs. entry_ok i" by simp_all
  show ?case
  proof (cases "entry_payload img")
    case None
    then show ?thesis
      using Cons.IH[OF rest] by (simp add: images_step_ok[OF ok] payloads_def List.map_filter_simps)
  next
    case (Some p)
    then show ?thesis
      using Cons.IH[OF rest, of "a\<lparr>imageBase64 := JStr p\<rparr>"]
      by (simp add: images_step_ok[OF ok] payloads_def List.map_filter_simps)
  qed
qed

lemma entry_payload_nonempty: "entry_payload img = Some p \<Longrightarrow> p \<noteq> []"
  by (auto simp: entry_payload_def split: if_splits jsval.splits dest: data_url_whole_nonempty)

lemma payloads_nonempty: "p \<in> set (payloads imgs) \<Longrightarrow> p \<noteq> []"
  by (auto simp: payloads_def List.map_filter_def dest: entry_payload_nonempty)

lemma json_phase_images:
  assumes "message_of jsonData = Some msg" "truthy msg"
    "getp msg ''images'' = JArr imgs" "\<forall>img \<in> set imgs. entry_ok img" "payloads imgs \<noteq> []"
  shows "\<exists>a. json_phase lg jsonData acc0 = Normal a
           \<and> imageBase64 a = JStr (last (payloads imgs)) \<and> imageUrl a = None"
proof -
  have tr: "truthy (JStr (last (payloads imgs)))"
    using payloads_nonempty[of "last (payloads imgs)" imgs] assms(5) by simp
  show ?thesis
    unfolding json_phase_def using assms(1-3) tr
    by (cases "getp msg ''content''")
       (simp_all add: images_loop_ok[OF assms(4)] assms(5) acc0_def)
qed


text \<open>
  C4, as stated: of several entries of \<open>message.images\<close> that hold a valid data-URL,
  the first is used. It fails for a response with the two entries \<open>AAAA\<close> and
  \<open>////\<close>: the loop has no \<open>break\<close>, every match overwrites \<open>imageBase64\<close>, and
  both functions decode the second entry (three bytes 255), not the first (three
  bytes 0).
\<close>

theorem C4_first_entry_counterexample:
  "payloads [image_entry ''data:image/png;base64,AAAA'', image_entry ''data:image/png;base64,////'']
     = [''AAAA'', ''////'']
   \<and> generateImage_resolve (demo_env ''R'' [(''R'', two_images)]) ''R'' = ([], Inr [255, 255, 255])
   \<and> editImage_resolve (demo_env ''R'' [(''R'', two_images)]) ''R'' = ([], Inr [255, 255, 255])
   \<and> Buffer_from (demo_env ''R'' [(''R'', two_images)]) (JStr ''AAAA'') = Inr [0, 0, 0]"
  by code_simp

text \<open>
  C4, amended: for every response that parses as JSON and whose message carries an
  array \<open>images\<close> of well-formed entries of which at least one holds a valid base64
  data-URL, \<open>generateImage\<close> and \<open>editImage\<close> use the last such entry of the array (no
  merging): the resolved bytes are the base64 decoding of that entry's payload, and no
  download is made.
\<close>

theorem C4_last_entry_wins:
  assumes "JSON_parse e responseText = Some jsonData"
    and "message_of jsonData = Some msg" and "truthy msg"
    and "getp msg ''images'' = JArr imgs" and "\<forall>img \<in> set imgs. entry_ok img"
    and "payloads imgs \<noteq> []"
  shows "generateImage_resolve e responseText = ([], Buffer_from e (JStr (last (payloads imgs))))
       \<and> editImage_resolve e responseText = ([], Buffer_from e (JStr (last (payloads imgs))))"
proof -
  have tr: "truthy (JStr (last (payloads imgs)))"
    using payloads_nonempty[of "last (payloads imgs)" imgs] assms(6) by simp
  from json_phase_images[OF assms(2-6), of LogMimeAndLength] obtain a where
    a: "json_phase LogMimeAndLength jsonData acc0 = Normal a"
       "imageBase64 a = JStr (last (payloads imgs))" by blast
  from json_phase_images[OF assms(2-6), of NoLog] obtain b where
    b: "json_phase NoLog jsonData acc0 = Normal b"
       "imageBase64 b = JStr (last (payloads imgs))" by blast
  have g: "generateImage_resolve e responseText = ([], Buffer_from e (JStr (last (payloads imgs))))"
    using tr by (simp add: generateImage_resolve_def generateImage_extract_def assms(1) a
        generateImage_scan_def materialize_def)
  have d: "editImage_resolve e responseText = ([], Buffer_from e (JStr (last (payloads imgs))))"
    using tr by (simp add: editImage_resolve_def editImage_extract_def assms(1) b
        editImage_scan_def materialize_def)
  from g d show ?thesis by simp
qed

theorem C4_last_entry_wins_witness:
  "JSON_parse (demo_env ''R'' [(''R'', two_images)]) ''R'' = Some two_images
   \<and> last (payloads [image_entry ''data:image/png;base64,AAAA'',
                     image_entry ''data:image/png;base64,////'']) = ''////''
   \<and> generateImage_resolve (demo_env ''R'' [(''R'', two_images)]) ''R''
       = ([], Buffer_from (demo_env ''R'' [(''R'', two_images)]) (JStr ''////''))
   \<and> editImage_resolve (demo_env ''R'' [(''R'', two_images)]) ''R''
       = ([], Buffer_from (demo_env ''R'' [(''R'', two_images)]) (JStr ''////''))"
proof -
  let ?imgs = "[image_entry ''data:image/png;base64,AAAA'', image_entry ''data:image/png;base64,////'']"
  let ?msg = "JObj [(''images'', JArr ?imgs)]"
  have p: "JSON_parse (demo_env ''R'' [(''R'', two_images)]) ''R'' = Some two_images"
    by (simp add: demo_env_def)
  have m: "message_of two_images = Some ?msg"
    by (simp add: two_images_def message_response_def message_of_def first_choice_def)
  have t: "truthy ?msg" by simp
  have i: "getp ?msg ''images'' = JArr ?imgs" by (simp add: getp_def)
  have ok: "\<forall>img \<in> set ?imgs. entry_ok img"
    by (simp add: entry_ok_def image_entry_def getp_def)
  have pl: "payloads ?imgs = [''AAAA'', ''////'']" by code_simp
  have ne: "payloads ?imgs \<noteq> []" by (simp add: pl)
  from C4_last_entry_wins[OF p m t i ok ne] p pl show ?thesis by simp
qed

lemma images_step_url: "imageUrl (state_of (images_step img a)) = imageUrl a"
  by (simp add: images_step_def split: option.splits jsval.splits)

lemma images_loop_url: "imageUrl (state_of (images_loop imgs a)) = imageUrl a"
proof (induction imgs arbitrary: a)
  case Nil
  then show ?case by simp
next
  case (Cons img imgs)
  show ?case
    using images_step_url[of img a] Cons.IH
    by (cases "images_step img a") simp_all
qed

lemma part_step_url: "imageUrl (state_of (part_step lg part a)) = imageUrl a"
  by (simp add: part_step_def Let_def split: option.splits)

lemma parts_loop_url: "imageUrl (state_of (parts_loop lg parts a)) = imageUrl a"
proof (induction parts arbitrary: a)
  case Nil
  then show ?case by simp
next
  case (Cons part parts)
  show ?case
    using part_step_url[of lg part a] Cons.IH
    by (cases "part_step lg part a") simp_all
qed

lemma json_phase_url: "imageUrl (state_of (json_phase lg jsonData a)) = imageUrl a"
proof (cases "message_of jsonData")
  case None
  then show ?thesis by (simp add: json_phase_def)
next
  case (Some msg)
  show ?thesis
  proof (cases "truthy msg")
    case False
    then show ?thesis by (simp add: json_phase_def Some)
  next
    case True
    define r where "r = (case getp msg ''images'' of JArr imgs \<Rightarrow> images_loop imgs a | _ \<Rightarrow> Normal a)"
    have u: "imageUrl (state_of r) = imageUrl a"
      unfolding r_def using images_loop_url by (cases "getp msg ''images''") simp_all
    have j: "json_phase lg jsonData a =
       (case r of Thrown a' \<Rightarrow> Thrown a'
        | Normal a1 \<Rightarrow>
            (case getp msg ''content'' of
               JArr parts \<Rightarrow> if \<not> truthy (imageBase64 a1) then parts_loop lg parts a1 else Normal a1
             | JStr s \<Rightarrow> Normal (a1\<lparr>fullContent := s\<rparr>)
             | _ \<Rightarrow> Normal a1))"
      by (simp add: json_phase_def Some True r_def)
    show ?thesis
    proof (cases r)
      case (Thrown a')
      then show ?thesis using u by (simp add: j)
    next
      case (Normal a1)
      then show ?thesis
        using u parts_loop_url[of lg _ a1]
        by (cases "getp msg ''content''") (simp_all add: j)
    qed
  qed
qed

lemma content_phase_url: "imageUrl (state_of (content_phase choice k a)) = imageUrl a"
  using parts_loop_url[of LogLength _ a]
  by (cases "getp (getp choice k) ''content''") (simp_all add: content_phase_def)

lemma stream_line_url: "imageUrl (stream_line e line a) = imageUrl a"
proof -
  have two: "imageUrl (case content_phase choice ''delta'' a of
                 Thrown a' \<Rightarrow> a'
               | Normal a1 \<Rightarrow> (case content_phase choice ''message'' a1 of
                                  Thrown a' \<Rightarrow> a' | Normal a2 \<Rightarrow> a2)) = imageUrl a" for choice
  proof (cases "content_phase choice ''delta'' a")
    case (Thrown a')
    then show ?thesis using content_phase_url[of choice "''delta''" a] by simp
  next
    case (Normal a1)
    then show ?thesis
      using content_phase_url[of choice "''delta''" a] content_phase_url[of choice "''message''" a1]
      by (cases "content_phase choice ''message'' a1") simp_all
  qed
  show ?thesis
    unfolding stream_line_def Let_def using two by (simp split: option.splits)
qed

lemma stream_phase_url: "imageUrl (stream_phase e t a) = imageUrl a"
proof -
  have "imageUrl (fold (stream_line e) ls a) = imageUrl a" for ls
    by (induction ls arbitrary: a) (simp_all add: stream_line_url)
  then show ?thesis by (simp add: stream_phase_def)
qed

lemma generateImage_extract_url: "imageUrl (generateImage_extract e t) = None"
proof (cases "JSON_parse e t")
  case None
  then show ?thesis by (simp add: generateImage_extract_def stream_phase_url acc0_def)
next
  case (Some jsonData)
  have "imageUrl (state_of (json_phase LogMimeAndLength jsonData acc0)) = None"
    by (simp add: json_phase_url acc0_def)
  then show ?thesis
    by (cases "json_phase LogMimeAndLength jsonData acc0")
       (simp_all add: generateImage_extract_def Some stream_phase_url)
qed

lemma editImage_extract_url: "imageUrl (editImage_extract e t) = None"
proof (cases "JSON_parse e t")
  case None
  then show ?thesis by (simp add: editImage_extract_def acc0_def)
next
  case (Some jsonData)
  have "imageUrl (state_of (json_phase NoLog jsonData acc0)) = None"
    by (simp add: json_phase_url acc0_def)
  then show ?thesis
    by (cases "json_phase NoLog jsonData acc0") (simp_all add: editImage_extract_def Some)
qed

lemma data_url_at_nonempty: "data_url_at s = Some b \<Longrightarrow> b \<noteq> []"
  by (auto simp: data_url_at_def Let_def split: option.splits if_splits)

lemma match_data_url_nonempty: "match_data_url s = Some b \<Longrightarrow> b \<noteq> []"
  by (induction s) (auto split: option.splits dest: data_url_at_nonempty)

lemma url_at_nonempty: "url_at s = Some u \<Longrightarrow> u \<noteq> []"
  by (cases s) (auto simp: url_at_def split: if_splits)

lemma match_image_url_nonempty: "match_image_url s = Some u \<Longrightarrow> u \<noteq> []"
  by (induction s) (auto split: option.splits dest: url_at_nonempty)

lemma materialize_scan:
  assumes "imageUrl a = None" "\<not> truthy (imageBase64 a)"
  shows "materialize e none (scan_text a) =
     (case match_data_url (fullContent a) of
        Some b \<Rightarrow> ([], Buffer_from e (JStr b))
      | None \<Rightarrow>
          (case match_image_url (fullContent a) of
             Some u \<Rightarrow> ([Get (JStr u)], download e (JStr u))
           | None \<Rightarrow> ([], Inl none)))"
  using assms
  by (auto simp: materialize_def scan_text_def Let_def split: option.splits
      dest: match_data_url_nonempty match_image_url_nonempty)


text \<open>
  C5, as stated: in the scan of the accumulated text the URL pattern is tried first
  and wins over the data-URL pattern. It fails for a text that holds both: the two
  patterns are tried by two independent \<open>if\<close>s, both variables are assigned, and the
  \<open>if (imageBase64)\<close> that follows decodes the data-URL; the URL is not fetched
  (fetching it would have given the bytes 1, 2, 3).
\<close>

theorem C5_url_first_counterexample:
  "match_image_url ''see http://a.b/c.png or data:image/jpeg;base64,AAAA ok''
     = Some ''http://a.b/c.png''
   \<and> match_data_url ''see http://a.b/c.png or data:image/jpeg;base64,AAAA ok'' = Some ''AAAA''
   \<and> generateImage_resolve (demo_env ''R'' [(''R'', url_and_data_url)]) ''R'' = ([], Inr [0, 0, 0])
   \<and> editImage_resolve (demo_env ''R'' [(''R'', url_and_data_url)]) ''R'' = ([], Inr [0, 0, 0])
   \<and> download (demo_env ''R'' [(''R'', url_and_data_url)]) (JStr ''http://a.b/c.png'')
       = Inr [1, 2, 3]"
  by code_simp

text \<open>
  C5, amended: for every accumulated text reached by the text scan (no inline image was
  captured before), both patterns are tried, and a data-URL match takes precedence:
  when the text contains a data-URL its payload is decoded and nothing is fetched; the
  leftmost bare image URL is fetched only when the text contains no data-URL; when
  neither matches, the resolution fails with the no-image error.
\<close>

theorem C5_data_url_preferred:
  "(\<not> truthy (imageBase64 (generateImage_extract e t)) \<longrightarrow>
      generateImage_resolve e t =
        (case match_data_url (fullContent (generateImage_extract e t)) of
           Some b \<Rightarrow> ([], Buffer_from e (JStr b))
         | None \<Rightarrow>
             (case match_image_url (fullContent (generateImage_extract e t)) of
                Some u \<Rightarrow> ([Get (JStr u)], download e (JStr u))
              | None \<Rightarrow> ([], Inl NoImageFound))))
   \<and> (\<not> truthy (imageBase64 (editImage_extract e t)) \<longrightarrow>
      editImage_resolve e t =
        (case match_data_url (fullContent (editImage_extract e t)) of
           Some b \<Rightarrow> ([], Buffer_from e (JStr b))
         | None \<Rightarrow>
             (case match_image_url (fullContent (editImage_extract e t)) of
                Some u \<Rightarrow> ([Get (JStr u)], download e (JStr u))
              | None \<Rightarrow> ([], Inl NoImageFoundEdit))))"
proof -
  have g: "generateImage_resolve e t = materialize e NoImageFound (scan_text (generateImage_extract e t))"
    if "\<not> truthy (imageBase64 (generateImage_extract e t))"
    using that by (simp add: generateImage_resolve_def generateImage_scan_def generateImage_extract_url)
  have d: "editImage_resolve e t =
      (case match_data_url (fullContent (editImage_extract e t)) of
           Some b \<Rightarrow> ([], Buffer_from e (JStr b))
         | None \<Rightarrow>
             (case match_image_url (fullContent (editImage_extract e t)) of
                Some u \<Rightarrow> ([Get (JStr u)], download e (JStr u))
              | None \<Rightarrow> ([], Inl NoImageFoundEdit)))"
    if n: "\<not> truthy (imageBase64 (editImage_extract e t))"
  proof (cases "fullContent (editImage_extract e t) = []")
    case True
    then show ?thesis
      using n by (simp add: editImage_resolve_def editImage_scan_def editImage_extract_url
          materialize_def)
  next
    case False
    then have "editImage_resolve e t = materialize e NoImageFoundEdit (scan_text (editImage_extract e t))"
      using n by (simp add: editImage_resolve_def editImage_scan_def editImage_extract_url)
    then show ?thesis
      using materialize_scan[OF editImage_extract_url n] by simp
  qed
  show ?thesis
    using g d materialize_scan[OF generateImage_extract_url] by simp
qed

theorem C5_data_url_preferred_witness:
  "\<not> truthy (imageBase64 (generateImage_extract (demo_env ''R'' [(''R'', url_only)]) ''R''))
   \<and> \<not> truthy (imageBase64 (editImage_extract (demo_env ''R'' [(''R'', url_only)]) ''R''))
   \<and> generateImage_resolve (demo_env ''R'' [(''R'', url_only)]) ''R''
       = ([Get (JStr ''http://a.b/c.png'')], Inr [1, 2, 3])
   \<and> editImage_resolve (demo_env ''R'' [(''R'', url_only)]) ''R''
       = ([Get (JStr ''http://a.b/c.png'')], Inr [1, 2, 3])"
proof -
  let ?e = "demo_env ''R'' [(''R'', url_only)]"
  have g: "generateImage_extract ?e ''R''
            = \<lparr>imageUrl = None, fullContent = ''see http://a.b/c.png ok'', imageBase64 = JNull\<rparr>"
    by code_simp
  have d: "editImage_extract ?e ''R''
            = \<lparr>imageUrl = None, fullContent = ''see http://a.b/c.png ok'', imageBase64 = JNull\<rparr>"
    by code_simp
  have m: "match_data_url ''see http://a.b/c.png ok'' = None"
    "match_image_url ''see http://a.b/c.png ok'' = Some ''http://a.b/c.png''"
    by code_simp+
  have f: "download ?e (JStr ''http://a.b/c.png'') = Inr [1, 2, 3]"
    by (simp add: download_def demo_env_def demo_fetch_def)
  have ng: "\<not> truthy (imageBase64 (generateImage_extract ?e ''R''))" by (simp add: g)
  have nd: "\<not> truthy (imageBase64 (editImage_extract ?e ''R''))" by (simp add: d)
  have fg: "fullContent (generateImage_extract ?e ''R'') = ''see http://a.b/c.png ok''"
    by (simp add: g)
  have fd: "fullContent (editImage_extract ?e ''R'') = ''see http://a.b/c.png ok''"
    by (simp add: d)
  note inst = C5_data_url_preferred[of ?e "''R''", unfolded fg fd m f]
  have rg: "generateImage_resolve ?e ''R'' = ([Get (JStr ''http://a.b/c.png'')], Inr [1, 2, 3])"
    using inst ng f by simp
  have rd: "editImage_resolve ?e ''R'' = ([Get (JStr ''http://a.b/c.png'')], Inr [1, 2, 3])"
    using inst nd f by simp
  from ng nd rg rd show ?thesis by blast
qed

section \<open>Failing to find an image\<close>

text \<open>
  C3: for every response of the conversational provider in which no strategy finds an
  image (after the extraction \<open>imageBase64\<close> is not truthy, and the accumulated text
  contains neither an image URL nor a data-URL), the resolution fails with the
  no-image error, whose message says that the prompt may need adjusting, and
  \<open>generateImage\<close> returns the failing result carrying it; nothing is thrown to the
  caller, nothing is downloaded and nothing is written.
\<close>

theorem C3_no_image_fails:
  assumes "fetch e (PostChat (chatApiUrl e) (apiKey e) (generateImage_requestBody pr mdl imageConfig))
             = Inr resp"
    and "ok resp"
    and "\<not> truthy (imageBase64 (generateImage_extract e (body_text resp)))"
    and "match_image_url (fullContent (generateImage_extract e (body_text resp))) = None"
    and "match_data_url (fullContent (generateImage_extract e (body_text resp))) = None"
  shows "generateImage_resolve e (body_text resp) = ([], Inl NoImageFound)
       \<and> generateImage e pr sp mdl imageConfig
           = ([PostChat (chatApiUrl e) (apiKey e) (generateImage_requestBody pr mdl imageConfig)],
              generateImage_failure NoImageFound pr)
       \<and> success (generateImage_failure NoImageFound pr) = False
       \<and> error (generateImage_failure NoImageFound pr) = Some NoImageFound"
proof -
  have s: "generateImage_scan (generateImage_extract e (body_text resp))
             = generateImage_extract e (body_text resp)"
    using assms(4,5) by (simp add: generateImage_scan_def scan_text_def)
  have m: "materialize e NoImageFound (generateImage_extract e (body_text resp)) = ([], Inl NoImageFound)"
    using assms(3) by (simp add: materialize_def generateImage_extract_url)
  have r: "generateImage_resolve e (body_text resp) = ([], Inl NoImageFound)"
    by (simp add: generateImage_resolve_def s m)
  have g: "generateImage e pr sp mdl imageConfig
           = ([PostChat (chatApiUrl e) (apiKey e) (generateImage_requestBody pr mdl imageConfig)],
              generateImage_failure NoImageFound pr)"
    using assms(1,2) by (simp add: generateImage_def Let_def s m)
  show ?thesis using r g by (simp add: generateImage_failure_def)
qed


theorem C3_no_image_fails_witness:
  "generateImage_extract (demo_env ''R'' [(''R'', refusal)]) ''R''
     = \<lparr>imageUrl = None, fullContent = ''I cannot draw that.'', imageBase64 = JNull\<rparr>
   \<and> match_image_url ''I cannot draw that.'' = None
   \<and> match_data_url ''I cannot draw that.'' = None
   \<and> snd (generateImage (demo_env ''R'' [(''R'', refusal)]) ''a cat'' None ''m'' None)
       = \<lparr>success = False, message = None, filePath = None, error = Some NoImageFound,
          prompt = Some ''a cat'', model = None\<rparr>"
proof -
  let ?e = "demo_env ''R'' [(''R'', refusal)]"
  let ?resp = "\<lparr>ok = True, status = 200, body_text = ''R'', buffer = []\<rparr>"
  have f: "fetch ?e (PostChat (chatApiUrl ?e) (apiKey ?e) (generateImage_requestBody ''a cat'' ''m'' None))
             = Inr ?resp"
    by (simp add: demo_env_def demo_fetch_def)
  have k: "ok ?resp" by simp
  have x: "generateImage_extract ?e ''R''
     = \<lparr>imageUrl = None, fullContent = ''I cannot draw that.'', imageBase64 = JNull\<rparr>"
    by code_simp
  have m: "match_image_url ''I cannot draw that.'' = None"
    "match_data_url ''I cannot draw that.'' = None"
    by code_simp+
  have h3: "\<not> truthy (imageBase64 (generateImage_extract ?e (body_text ?resp)))"
    by (simp add: x)
  have h4: "match_image_url (fullContent (generateImage_extract ?e (body_text ?resp))) = None"
    by (simp add: x m del: match_image_url.simps)
  have h5: "match_data_url (fullContent (generateImage_extract ?e (body_text ?resp))) = None"
    by (simp add: x m del: match_data_url.simps)
  from C3_no_image_fails[OF f k h3 h4 h5, of None] x m show ?thesis
    by (simp add: generateImage_failure_def del: match_image_url.simps match_data_url.simps)
qed

section \<open>The event-stream fallback\<close>

lemma startsWith_append: "startsWith (p @ s) p"
  by (induction p) simp_all

lemma trim_data: "startsWith (trim (''data: '' @ js)) ''data:''"
proof -
  have d: "dropWhile is_space (''data: '' @ js) = ''data: '' @ js"
    by (simp add: is_space_def)
  have r: "rev (''data: '' @ js) = rev js @ '' :atad''" by simp
  have "rev (dropWhile is_space (rev js @ '' :atad''))
          = (if \<forall>x \<in> set js. is_space x then ''data:''
             else ''data: '' @ rev (dropWhile is_space (rev js)))"
    by (simp add: dropWhile_append is_space_def)
  then show ?thesis
    unfolding trim_def d r by (simp del: rev_append)
qed

lemma remove_first_data: "remove_first (''data: '' @ js) ''data: '' = js"
  by simp

lemma parts_loop_texts_image:
  "parts_loop LogLength (map text_part ts @ [inline_part d]) a
     = Normal (a\<lparr>fullContent := fullContent a @ concat ts, imageBase64 := JStr d\<rparr>)"
proof (induction ts arbitrary: a)
  case Nil
  then show ?case
    by (simp add: part_step_def inline_part_def getp_def log_throws_def length_throws_def)
next
  case (Cons t ts)
  have "part_step LogLength (text_part t) a = Normal (a\<lparr>fullContent := fullContent a @ t\<rparr>)"
    by (simp add: part_step_def text_part_def getp_def)
  then show ?case using Cons.IH[of "a\<lparr>fullContent := fullContent a @ t\<rparr>"] by simp
qed

lemma stream_line_frame:
  assumes "JSON_parse e js = Some (delta_frame (JArr (map text_part ts @ [inline_part d])))"
    and "trim js \<noteq> ''[DONE]''"
  shows "stream_line e (''data: '' @ js) a
           = a\<lparr>fullContent := fullContent a @ concat ts, imageBase64 := JStr d\<rparr>"
proof -
  let ?choice = "JObj [(''delta'', JObj [(''content'', JArr (map text_part ts @ [inline_part d]))])]"
  have fc: "first_choice (delta_frame (JArr (map text_part ts @ [inline_part d]))) = Some ?choice"
    by (simp add: first_choice_def delta_frame_def)
  have c1: "content_phase ?choice ''delta'' a
              = Normal (a\<lparr>fullContent := fullContent a @ concat ts, imageBase64 := JStr d\<rparr>)"
    by (simp add: content_phase_def getp_def parts_loop_texts_image)
  have c2: "content_phase ?choice ''message'' b = Normal b" for b
    by (simp add: content_phase_def getp_def)
  show ?thesis
    unfolding stream_line_def remove_first_data Let_def
    using trim_data[of js] assms by (simp add: fc c1 c2 del: append.simps)
qed

text \<open>
  What the fallback does for a response text that \<open>JSON.parse\<close> rejects: the
  extraction of \<open>generateImage\<close> is the event-stream loop: the text is split at newlines, blank
  records are dropped, and the records are processed in order; a record that does not
  start with \<open>data:\<close> changes nothing; a record that is the \<open>[DONE]\<close> sentinel
  changes nothing; what is left of a data frame after removing \<open>data: \<close> is parsed
  on its own, and a frame that does not parse changes nothing; when the delta content
  of a frame \<open>data: <json>\<close> is an array of text parts followed by an inline image
  part, the texts are accumulated and the image's data is captured. So a stream of one
  such frame and the sentinel resolves to the decoding of that image's data.
\<close>

lemma spaced_frame_resolves:
  assumes "JSON_parse e responseText = None"
  shows "generateImage_extract e responseText
           = fold (stream_line e) (filter (\<lambda>line. trim line \<noteq> []) (split_lines responseText)) acc0
       \<and> (\<not> startsWith (trim line) ''data:'' \<longrightarrow> stream_line e line a = a)
       \<and> (trim (remove_first line ''data: '') = ''[DONE]'' \<longrightarrow> stream_line e line a = a)
       \<and> (JSON_parse e (remove_first line ''data: '') = None \<longrightarrow> stream_line e line a = a)
       \<and> (JSON_parse e js = Some (delta_frame (JArr (map text_part ts @ [inline_part d])))
            \<and> trim js \<noteq> ''[DONE]'' \<longrightarrow>
          stream_line e (''data: '' @ js) a
            = a\<lparr>fullContent := fullContent a @ concat ts, imageBase64 := JStr d\<rparr>)
       \<and> (stream_lines responseText = [''data: '' @ js, ''data: [DONE]'']
            \<and> JSON_parse e js = Some (delta_frame (JArr (map text_part ts @ [inline_part d])))
            \<and> trim js \<noteq> ''[DONE]'' \<and> d \<noteq> [] \<longrightarrow>
          generateImage_resolve e responseText = ([], Buffer_from e (JStr d)))"
proof -
  have x: "generateImage_extract e responseText
           = fold (stream_line e) (filter (\<lambda>line. trim line \<noteq> []) (split_lines responseText)) acc0"
    using assms by (simp add: generateImage_extract_def stream_phase_def stream_lines_def)
  have n: "\<not> startsWith (trim line) ''data:'' \<longrightarrow> stream_line e line a = a"
    by (simp add: stream_line_def)
  have dn: "trim (remove_first line ''data: '') = ''[DONE]'' \<longrightarrow> stream_line e line a = a"
    by (simp add: stream_line_def Let_def)
  have pf: "JSON_parse e (remove_first line ''data: '') = None \<longrightarrow> stream_line e line a = a"
    by (simp add: stream_line_def Let_def)
  have done_line: "stream_line e ''data: [DONE]'' b = b" for b
    by (simp add: stream_line_def Let_def trim_def is_space_def)
  have r: "generateImage_resolve e responseText = ([], Buffer_from e (JStr d))"
    if l: "stream_lines responseText = [''data: '' @ js, ''data: [DONE]'']"
      and p: "JSON_parse e js = Some (delta_frame (JArr (map text_part ts @ [inline_part d])))"
      and t: "trim js \<noteq> ''[DONE]''" and d: "d \<noteq> []"
  proof -
    have "generateImage_extract e responseText
            = acc0\<lparr>fullContent := fullContent acc0 @ concat ts, imageBase64 := JStr d\<rparr>"
      using assms l by (simp add: generateImage_extract_def stream_phase_def
          stream_line_frame[OF p t] done_line del: append.simps)
    then show ?thesis
      using d by (simp add: generateImage_resolve_def generateImage_scan_def materialize_def)
  qed
  show ?thesis
    using x n dn pf stream_line_frame r by blast
qed


text \<open>
  C8: the fallback is to consider the records prefixed as data frames, to parse each
  as a JSON fragment and to capture an inline image of its delta, so that a stream
  whose one data frame carries an inline image resolves to that image's bytes. The
  code breaks this for a frame written \<open>data:<json>\<close>: line 155 accepts the record
  by the prefix \<open>data:\<close>, but line 156 removes \<open>data: \<close> with a space, which is
  not there; \<open>JSON.parse\<close> is handed the whole record, throws, and the frame is
  skipped. The stream \<open>data:F\<close>, \<open>data: [DONE]\<close> ends in the no-image failure,
  where the stream \<open>data: F\<close>, \<open>data: [DONE]\<close> with the same frame resolves to the
  bytes 0, 0, 0.
\<close>

theorem C8_unspaced_frame_lost:
  "JSON_parse (demo_env sse_text_unspaced [(''F'', sse_frame)]) sse_text_unspaced = None
   \<and> stream_lines sse_text_unspaced = [''data:F'', ''data: [DONE]'']
   \<and> startsWith (trim ''data:F'') ''data:''
   \<and> remove_first ''data:F'' ''data: '' = ''data:F''
   \<and> generateImage_resolve (demo_env sse_text_unspaced [(''F'', sse_frame)]) sse_text_unspaced
       = ([], Inl NoImageFound)
   \<and> snd (generateImage (demo_env sse_text_unspaced [(''F'', sse_frame)]) ''a cat'' None ''m'' None)
       = \<lparr>success = False, message = None, filePath = None, error = Some NoImageFound,
          prompt = Some ''a cat'', model = None\<rparr>
   \<and> generateImage_resolve (demo_env sse_text [(''F'', sse_frame)]) sse_text
       = ([], Inr [0, 0, 0])"
  by code_simp

section \<open>The direct provider\<close>

lemma index0_truthy: "truthy v \<Longrightarrow> \<exists>d0. index0 v = Some d0"
  by (cases v rule: index0.cases) auto

lemma glm_url_missing:
  assumes "\<not> truthy (first_url data)"
  shows "glm_url data = Inl (if data = JNull \<or> data = JUndefined then TypeError else ZhipuFormat)"
proof (cases "data = JNull \<or> data = JUndefined")
  case True
  then show ?thesis by (auto simp: glm_url_def)
next
  case False
  then have g: "get_prop data ''data'' = Some (getp data ''data'')"
    by (simp add: get_prop_Some)
  show ?thesis
  proof (cases "truthy (getp data ''data'')")
    case f: False
    then show ?thesis using False by (simp add: glm_url_def g)
  next
    case t: True
    then obtain d0 where d0: "index0 (getp data ''data'') = Some d0"
      using index0_truthy by blast
    then show ?thesis
      using False t assms by (simp add: glm_url_def g first_url_def)
  qed
qed

text \<open>
  C10: for every 2xx response of the direct provider that parses as JSON and has no
  truthy \<open>data[0].url\<close>, \<open>generateImageGlm\<close> returns the failing result
  \<open>{success: false, error, prompt, model: 'glm-image'}\<close> and throws nothing; the
  only call made is the POST. Nothing else of the response is looked at: the result is
  the same whatever image lists, inline parts or text the response holds.
\<close>

theorem C10_glm_missing_url_fails:
  assumes "fetch e (PostGlm (zhipuApiBase e @ ''/images/generations'') (zhipuApiKey e)
                     \<lparr>glm_model = modelGlmImage e, glm_prompt = pr, glm_size = sz,
                      watermark_enabled = False\<rparr>) = Inr resp"
    and "ok resp"
    and "JSON_parse e (body_text resp) = Some data"
    and "\<not> truthy (first_url data)"
  shows "generateImageGlm e pr sp sz
           = ([PostGlm (zhipuApiBase e @ ''/images/generations'') (zhipuApiKey e)
                     \<lparr>glm_model = modelGlmImage e, glm_prompt = pr, glm_size = sz,
                      watermark_enabled = False\<rparr>],
              \<lparr>success = False, message = None, filePath = None,
               error = Some (if data = JNull \<or> data = JUndefined then TypeError else ZhipuFormat),
               prompt = Some pr, model = Some ''glm-image''\<rparr>)"
  using assms(1-3) glm_url_missing[OF assms(4)]
  by (simp add: generateImageGlm_def Let_def glm_failure_def)

theorem C10_glm_missing_url_fails_witness:
  "\<not> truthy (first_url two_images)
   \<and> generateImage_resolve (demo_env ''R'' [(''R'', two_images)]) ''R'' = ([], Inr [255, 255, 255])
   \<and> snd (generateImageGlm (demo_env ''R'' [(''R'', two_images)]) ''a cat'' None ''1280x1280'')
       = \<lparr>success = False, message = None, filePath = None, error = Some ZhipuFormat,
          prompt = Some ''a cat'', model = Some ''glm-image''\<rparr>"
proof -
  let ?e = "demo_env ''R'' [(''R'', two_images)]"
  let ?resp = "\<lparr>ok = True, status = 200, body_text = ''R'', buffer = []\<rparr>"
  have f: "fetch ?e (PostGlm (zhipuApiBase ?e @ ''/images/generations'') (zhipuApiKey ?e)
                     \<lparr>glm_model = modelGlmImage ?e, glm_prompt = ''a cat'', glm_size = ''1280x1280'',
                      watermark_enabled = False\<rparr>) = Inr ?resp"
    by (simp add: demo_env_def demo_fetch_def)
  have k: "ok ?resp" by simp
  have p: "JSON_parse ?e (body_text ?resp) = Some two_images"
    by (simp add: demo_env_def)
  have n: "\<not> truthy (first_url two_images)"
    by (simp add: first_url_def two_images_def message_response_def getp_def)
  have r: "generateImage_resolve ?e ''R'' = ([], Inr [255, 255, 255])" by code_simp
  have j: "two_images \<noteq> JNull \<and> two_images \<noteq> JUndefined"
    by (simp add: two_images_def message_response_def)
  from C10_glm_missing_url_fails[OF f k p n, of None] n r j show ?thesis by simp
qed

section \<open>The shape of a result\<close>

lemma generateImage_result_cases:
  "(\<exists>err. snd (generateImage e pr sp mdl imageConfig) = generateImage_failure err pr)
   \<or> (\<exists>p. snd (generateImage e pr sp mdl imageConfig) = generateImage_success p pr)"
  by (auto simp: generateImage_def Let_def split: sum.splits)

lemma generateImageGlm_result_cases:
  "(\<exists>err. snd (generateImageGlm e pr sp sz) = glm_failure err pr)
   \<or> (\<exists>p. snd (generateImageGlm e pr sp sz) = glm_success p pr)"
  by (auto simp: generateImageGlm_def Let_def split: sum.splits option.splits)

text \<open>
  C2, as stated: every result has exactly the properties \<open>success\<close>,
  \<open>filePath\<close> or \<open>error\<close>, \<open>prompt\<close> and \<open>model\<close>. It fails for \<open>generateImage\<close>:
  a successful result has the properties success, message, filePath, prompt and a
  failing one success, error, prompt; neither has \<open>model\<close>.
\<close>

theorem C2_generateImage_shape_counterexample:
  "result_keys (snd (generateImage (demo_env ''R'' [(''R'', two_images)]) ''a cat'' None ''m'' None))
     = [''success'', ''message'', ''filePath'', ''prompt'']
   \<and> result_keys (snd (generateImage (demo_env ''R'' [(''R'', refusal)]) ''a cat'' None ''m'' None))
     = [''success'', ''error'', ''prompt'']
   \<and> model (snd (generateImage (demo_env ''R'' [(''R'', two_images)]) ''a cat'' None ''m'' None))
     = None"
  by code_simp

text \<open>
  C2, amended: every result of a single-job function carries \<open>success\<close> and the
  job's \<open>prompt\<close>; a successful one carries in addition \<open>message\<close> and \<open>filePath\<close>,
  a failing one \<open>error\<close>, and nothing else, except that every result of
  \<open>generateImageGlm\<close> also carries \<open>model: 'glm-image'\<close>. A result of
  \<open>generateImage\<close> has no \<open>model\<close> property.
\<close>

theorem C2_result_shape:
  "result_keys (snd (generateImage e pr sp mdl imageConfig))
     = (if success (snd (generateImage e pr sp mdl imageConfig))
        then [''success'', ''message'', ''filePath'', ''prompt'']
        else [''success'', ''error'', ''prompt''])
   \<and> model (snd (generateImage e pr sp mdl imageConfig)) = None
   \<and> prompt (snd (generateImage e pr sp mdl imageConfig)) = Some pr
   \<and> result_keys (snd (generateImageGlm e pr sp sz))
     = (if success (snd (generateImageGlm e pr sp sz))
        then [''success'', ''message'', ''filePath'', ''prompt'', ''model'']
        else [''success'', ''error'', ''prompt'', ''model''])
   \<and> model (snd (generateImageGlm e pr sp sz)) = Some ''glm-image''
   \<and> prompt (snd (generateImageGlm e pr sp sz)) = Some pr"
proof -
  have g: "result_keys r = (if success r then [''success'', ''message'', ''filePath'', ''prompt'']
                            else [''success'', ''error'', ''prompt''])
           \<and> model r = None \<and> prompt r = Some pr"
    if "(\<exists>err. r = generateImage_failure err pr) \<or> (\<exists>p. r = generateImage_success p pr)" for r
    using that
    by (elim disjE exE)
       (simp_all add: result_keys_def generateImage_failure_def generateImage_success_def)
  have z: "result_keys r = (if success r then [''success'', ''message'', ''filePath'', ''prompt'', ''model'']
                            else [''success'', ''error'', ''prompt'', ''model''])
           \<and> model r = Some ''glm-image'' \<and> prompt r = Some pr"
    if "(\<exists>err. r = glm_failure err pr) \<or> (\<exists>p. r = glm_success p pr)" for r
    using that
    by (elim disjE exE) (simp_all add: result_keys_def glm_failure_def glm_success_def)
  from g[OF generateImage_result_cases] z[OF generateImageGlm_result_cases]
  show ?thesis by blast
qed


theorem C2_result_shape_witness:
  "success (snd (generateImage (demo_env ''R'' [(''R'', two_images)]) ''a cat'' None ''m'' None))
   \<and> result_keys (snd (generateImage (demo_env ''R'' [(''R'', two_images)]) ''a cat'' None ''m'' None))
       = [''success'', ''message'', ''filePath'', ''prompt'']
   \<and> \<not> success (snd (generateImageGlm (demo_env ''R'' [(''R'', two_images)]) ''a cat'' None
                       ''1280x1280''))
   \<and> result_keys (snd (generateImageGlm (demo_env ''R'' [(''R'', two_images)]) ''a cat'' None
                         ''1280x1280''))
       = [''success'', ''error'', ''prompt'', ''model'']"
proof -
  let ?e = "demo_env ''R'' [(''R'', two_images)]"
  have g: "success (snd (generateImage ?e ''a cat'' None ''m'' None))" by code_simp
  have z: "\<not> success (snd (generateImageGlm ?e ''a cat'' None ''1280x1280''))" by code_simp
  from C2_result_shape[of ?e "''a cat''" None "''m''" None "''1280x1280''"] g z
  show ?thesis by simp
qed

section \<open>The sizing hint\<close>

text \<open>
  C6, as stated: the request body carries \<open>image_config\<close> if and only if the model
  identifier matches a family token case-insensitively. It fails at the identifier
  \<open>GEMINI\<close>: the specification's match succeeds, the code's \<open>includes\<close> does
  not, and no hint is attached.
\<close>

theorem C6_case_insensitive_counterexample:
  "spec_family_match ''GEMINI''
   \<and> image_config (generateImage_requestBody ''a cat'' ''GEMINI'' None) = None
   \<and> image_config (editImage_requestBody ''bluer'' ''AAAA'' ''GEMINI'' None) = None"
  by (simp add: spec_family_match_def to_lower_def generateImage_requestBody_def
      editImage_requestBody_def with_image_config_def)

text \<open>
  C6, amended: for every model identifier, the body built for a generation or an edit
  carries \<open>image_config\<close> if and only if the identifier contains \<open>gemini\<close> or
  \<open>nano-banana\<close> as a substring, compared case-sensitively; the hint is then the
  caller's configuration, or \<open>{image_size: '1K'}\<close> when none was given. Every other
  field of the body is the same with and without the hint.
\<close>

theorem C6_image_config_iff_includes:
  "(image_config (generateImage_requestBody pr mdl imageConfig) \<noteq> None
      \<longleftrightarrow> includes_str mdl ''gemini'' \<or> includes_str mdl ''nano-banana'')
   \<and> (image_config (editImage_requestBody ep img mdl imageConfig) \<noteq> None
      \<longleftrightarrow> includes_str mdl ''gemini'' \<or> includes_str mdl ''nano-banana'')
   \<and> (includes_str mdl ''gemini'' \<or> includes_str mdl ''nano-banana'' \<longrightarrow>
        image_config (generateImage_requestBody pr mdl imageConfig)
          = Some (case imageConfig of None \<Rightarrow> default_image_config | Some c \<Rightarrow> c)
      \<and> image_config (editImage_requestBody ep img mdl imageConfig)
          = Some (case imageConfig of None \<Rightarrow> default_image_config | Some c \<Rightarrow> c))"
  by (simp add: generateImage_requestBody_def editImage_requestBody_def with_image_config_def)

theorem C6_image_config_iff_includes_witness:
  "image_config (generateImage_requestBody ''a cat'' ''google/gemini-3-pro-image-preview'' None)
     = Some default_image_config
   \<and> image_config (editImage_requestBody ''bluer'' ''AAAA'' ''bytedance-seed/seedream-4.5'' None)
     = None"
  using C6_image_config_iff_includes
    [of "''a cat''" "''google/gemini-3-pro-image-preview''" None "''bluer''" "''AAAA''"]
    C6_image_config_iff_includes
    [of "''a cat''" "''bytedance-seed/seedream-4.5''" None "''bluer''" "''AAAA''"]
  by simp

end
